theory Spec2Isabelle
  imports Complex_Main "HOL-Library.AList"
begin

section \<open>HandForge: job orchestration and encoder process management\<close>

text \<open>
  A shallow embedding of the orchestration core of HandForge: the data model
  (\<^verbatim>\<open>core/models.py\<close>), the scheduler (\<^verbatim>\<open>Orchestrator\<close> in
  \<^verbatim>\<open>core/orchestrator.py\<close>), the path and command helpers of
  \<^verbatim>\<open>util/ffmpeg.py\<close> and the per-job \<^verbatim>\<open>Worker.run\<close>.

  Conventions. Python strings are \<open>string\<close>; \<^verbatim>\<open>Optional[T]\<close> is \<open>T option\<close>; a
  dictionary read only through \<^verbatim>\<open>get\<close> is an association list; Qt signals are
  appended to an explicit list of emitted events; every exception the code can raise on
  a modelled path is a value. Python floats are modelled by exact rationals: the
  properties below only compare them and the comparisons used are preserved by rounding.
\<close>

subsection \<open>The job record (\<^verbatim>\<open>core/models.py\<close>)\<close>

type_synonym pyfloat = rat

record Job =
  src :: string
  dst_dir :: string
  format :: string
  mode :: string
  bitrate :: "string option"
  vbrq :: "string option"
  sample_rate :: "string option"
  channels :: "string option"
  meta_title :: "string option"
  meta_artist :: "string option"
  meta_album :: "string option"
  meta_year :: "string option"
  meta_genre :: "string option"
  meta_track :: "string option"
  copy_meta :: bool
  strip_meta :: bool
  prefer_external_cover :: bool
  normalize_lufs :: bool
  target_lufs :: pyfloat
  threads :: int
  custom_args :: "string option"
  video_codec :: "string option"
  video_bitrate :: "string option"
  video_quality :: "string option"
  resolution :: "string option"
  fps :: "string option"
  extract_audio_only :: bool
  reduce_size :: bool
  size_reduction_factor :: "pyfloat option"
  use_hevc :: bool
  two_pass :: bool
  subtitle_track :: "int option"
  trim_start :: "pyfloat option"
  trim_end :: "pyfloat option"
  fade_in :: "pyfloat option"
  fade_out :: "pyfloat option"
  video_trim_start :: "pyfloat option"
  video_trim_end :: "pyfloat option"
  crop_x :: "int option"
  crop_y :: "int option"
  crop_width :: "int option"
  crop_height :: "int option"
  video_quality_preset :: "string option"
  audio_track :: "int option"
  delete_original :: bool

text \<open>The dataclass defaults: a job built from its three required fields.\<close>

definition Job_init :: "string \<Rightarrow> string \<Rightarrow> string \<Rightarrow> Job" where
  "Job_init s d f =
     \<lparr>src = s, dst_dir = d, format = f, mode = ''CBR'', bitrate = None, vbrq = None,
      sample_rate = None, channels = None, meta_title = None, meta_artist = None,
      meta_album = None, meta_year = None, meta_genre = None, meta_track = None,
      copy_meta = True, strip_meta = False, prefer_external_cover = False,
      normalize_lufs = False, target_lufs = - 14, threads = 1, custom_args = None,
      video_codec = None, video_bitrate = None, video_quality = None, resolution = None,
      fps = None, extract_audio_only = False, reduce_size = False,
      size_reduction_factor = None, use_hevc = False, two_pass = False,
      subtitle_track = None, trim_start = None, trim_end = None, fade_in = None,
      fade_out = None, video_trim_start = None, video_trim_end = None, crop_x = None,
      crop_y = None, crop_width = None, crop_height = None, video_quality_preset = None,
      audio_track = None, delete_original = False\<rparr>"

subsection \<open>The settings snapshot\<close>

text \<open>
  The settings dictionary is read through three keys only. A missing key is \<open>None\<close>, and
  the defaults of the \<^verbatim>\<open>get\<close> calls are written where the code writes them.
\<close>

record Settings =
  parallel :: "int option"
  on_exists :: "string option"
  codec_threads :: "(string \<times> int) list option"

definition empty_settings :: Settings where
  "empty_settings = \<lparr>parallel = None, on_exists = None, codec_threads = None\<rparr>"

definition demo_settings :: Settings where
  "demo_settings = \<lparr>parallel = Some 2, on_exists = Some ''rename'',
                     codec_threads = Some [(''mp3'', 4), (''flac'', 2)]\<rparr>"

subsection \<open>Strings and decimal numerals\<close>

text \<open>
  \<open>lower\<close> is \<^verbatim>\<open>str.lower\<close> on ASCII text and \<open>strip\<close> is \<^verbatim>\<open>str.strip\<close> with the
  ASCII white space characters. \<open>str_nat\<close> and \<open>str_int\<close> are \<^verbatim>\<open>str\<close> of a Python
  integer, \<open>int_of_digits\<close> is \<^verbatim>\<open>int\<close> of a string of decimal digits.
\<close>

definition lower_char :: "char \<Rightarrow> char" where
  "lower_char c =
     (case map_of (zip ''ABCDEFGHIJKLMNOPQRSTUVWXYZ'' ''abcdefghijklmnopqrstuvwxyz'') c of
        Some l \<Rightarrow> l | None \<Rightarrow> c)"

definition lower :: "string \<Rightarrow> string" where
  "lower s = map lower_char s"

definition is_space :: "char \<Rightarrow> bool" where
  "is_space c \<longleftrightarrow>
     c \<in> set [CHR 0x09, CHR 0x0A, CHR 0x0B, CHR 0x0C, CHR 0x0D,
               CHR 0x1C, CHR 0x1D, CHR 0x1E, CHR 0x1F, CHR '' '']"

definition is_digit :: "char \<Rightarrow> bool" where
  "is_digit c \<longleftrightarrow> c \<in> set ''0123456789''"

definition strip :: "string \<Rightarrow> string" where
  "strip s = rev (dropWhile is_space (rev (dropWhile is_space s)))"

definition starts_with :: "string \<Rightarrow> string \<Rightarrow> bool" where
  "starts_with p s \<longleftrightarrow> take (length p) s = p"

definition ends_with :: "string \<Rightarrow> string \<Rightarrow> bool" where
  "ends_with p s \<longleftrightarrow> length p \<le> length s \<and> drop (length s - length p) s = p"

fun contains :: "string \<Rightarrow> string \<Rightarrow> bool" where
  "contains p [] = (p = [])"
| "contains p (c # cs) = (starts_with p (c # cs) \<or> contains p cs)"

definition digit_char :: "nat \<Rightarrow> char" where
  "digit_char d = ''0123456789'' ! d"

function str_nat :: "nat \<Rightarrow> string" where
  "str_nat n = (if n < 10 then [digit_char n] else str_nat (n div 10) @ [digit_char (n mod 10)])"
  by pat_completeness auto
termination
  by (relation "measure id") auto

declare str_nat.simps [simp del]

definition str_int :: "int \<Rightarrow> string" where
  "str_int i = (if i < 0 then CHR ''-'' # str_nat (nat (- i)) else str_nat (nat i))"

definition digit_val :: "char \<Rightarrow> nat" where
  "digit_val c = length (takeWhile (\<lambda>x. x \<noteq> c) ''0123456789'')"

definition int_of_digits :: "string \<Rightarrow> nat" where
  "int_of_digits s = foldl (\<lambda>a c. 10 * a + digit_val c) 0 s"

subsection \<open>\<^verbatim>\<open>os.path\<close> on POSIX path strings\<close>

text \<open>
  \<^verbatim>\<open>os.path.basename\<close>, \<^verbatim>\<open>dirname\<close>, \<^verbatim>\<open>splitext\<close> and \<^verbatim>\<open>join\<close> as \<^verbatim>\<open>posixpath\<close>
  defines them: the separator is \<^verbatim>\<open>/\<close>, the extension starts at the last dot of the last
  component, and leading dots of that component do not start an extension. \<open>rfind\<close> is
  \<^verbatim>\<open>str.rfind\<close> of one character, \<open>-1\<close> when it does not occur.
\<close>

definition rfind :: "char \<Rightarrow> string \<Rightarrow> int" where
  "rfind c p =
     (if c \<in> set p then int (length p) - 1 - int (length (takeWhile (\<lambda>x. x \<noteq> c) (rev p)))
      else - 1)"

definition basename :: "string \<Rightarrow> string" where
  "basename p = drop (nat (rfind CHR ''/'' p + 1)) p"

definition dirname :: "string \<Rightarrow> string" where
  "dirname p =
     (let hd0 = take (nat (rfind CHR ''/'' p + 1)) p
      in if hd0 \<noteq> [] \<and> hd0 \<noteq> replicate (length hd0) CHR ''/''
         then rev (dropWhile (\<lambda>c. c = CHR ''/'') (rev hd0)) else hd0)"

definition splitext :: "string \<Rightarrow> string \<times> string" where
  "splitext p =
     (let sepIndex = rfind CHR ''/'' p; dotIndex = rfind CHR ''.'' p
      in if dotIndex > sepIndex \<and>
            list_ex (\<lambda>c. c \<noteq> CHR ''.'')
              (take (nat (dotIndex - sepIndex - 1)) (drop (nat (sepIndex + 1)) p))
         then (take (nat dotIndex) p, drop (nat dotIndex) p)
         else (p, []))"

definition path_join :: "string \<Rightarrow> string \<Rightarrow> string" where
  "path_join a b =
     (if starts_with ''/'' b then b
      else if a = [] \<or> ends_with ''/'' a then a @ b
      else a @ ''/'' @ b)"

subsection \<open>The environment\<close>

text \<open>
  What the code asks of the operating system and of library functions whose result is not
  determined by the repository: an \<open>Env\<close> holds them as parameters. The file system is
  an association list from the paths that exist to their sizes in bytes;
  \<^verbatim>\<open>os.path.exists\<close> is \<open>path_exists\<close> and \<^verbatim>\<open>os.path.getsize\<close> is \<open>getsize\<close>.
  \<open>ffmpeg_path\<close> is the result of \<^verbatim>\<open>find_ffmpeg()\<close>, \<open>makedirs\<close> is
  \<^verbatim>\<open>os.makedirs(d, exist_ok=True)\<close> with the file system it leaves, \<open>shlex_split\<close> is
  \<^verbatim>\<open>shlex.split\<close> (\<open>None\<close> when it raises \<^verbatim>\<open>ValueError\<close>) and \<open>str_float\<close> is \<^verbatim>\<open>str\<close>
  of a float.
\<close>

type_synonym filesystem = "(string \<times> int) list"

definition path_exists :: "filesystem \<Rightarrow> string \<Rightarrow> bool" where
  "path_exists fs p \<longleftrightarrow> p \<in> set (map fst fs)"

definition getsize :: "filesystem \<Rightarrow> string \<Rightarrow> int option" where
  "getsize fs p = map_of fs p"

datatype py_exception =
    RuntimeError string
  | OSError string
  | ValueError string
  | IndexError string
  | NameError string
  | UnboundLocalError string

text \<open>
  \<^verbatim>\<open>str(e)\<close>. The text of an \<^verbatim>\<open>UnboundLocalError\<close> is that of Python 3.11 and later.
\<close>

fun str_exc :: "py_exception \<Rightarrow> string" where
  "str_exc (RuntimeError m) = m"
| "str_exc (OSError m) = m"
| "str_exc (ValueError m) = m"
| "str_exc (IndexError m) = m"
| "str_exc (NameError n) = ''name '' @ [CHR 0x27] @ n @ [CHR 0x27] @ '' is not defined''"
| "str_exc (UnboundLocalError n) =
     ''cannot access local variable '' @ [CHR 0x27] @ n @ [CHR 0x27] @
     '' where it is not associated with a value''"

record Env =
  platform_windows :: bool
  ffmpeg_path :: "string option"
  expanduser :: "string \<Rightarrow> string"
  makedirs :: "filesystem \<Rightarrow> string \<Rightarrow> py_exception + filesystem"
  shlex_split :: "string \<Rightarrow> string list option"
  str_float :: "pyfloat \<Rightarrow> string"

subsection \<open>\<^verbatim>\<open>out_path\<close> (\<^verbatim>\<open>util/ffmpeg.py\<close>)\<close>

definition ext_map :: "(string \<times> string) list" where
  "ext_map =
     [(''mp3'', ''.mp3''), (''aac'', ''.aac''), (''m4a'', ''.m4a''), (''opus'', ''.opus''),
      (''ogg'', ''.ogg''), (''flac'', ''.flac''), (''wav'', ''.wav''), (''aiff'', ''.aiff''),
      (''wma'', ''.wma''), (''ac3'', ''.ac3''), (''eac3'', ''.eac3''), (''ape'', ''.ape''),
      (''tta'', ''.tta''), (''wv'', ''.wv''), (''mp2'', ''.mp2''), (''amr'', ''.amr''),
      (''caf'', ''.caf''), (''au'', ''.au''), (''mka'', ''.mka''),
      (''mp4'', ''.mp4''), (''mkv'', ''.mkv''), (''avi'', ''.avi''), (''mov'', ''.mov''),
      (''wmv'', ''.wmv''), (''flv'', ''.flv''), (''webm'', ''.webm''), (''m4v'', ''.m4v''),
      (''3gp'', ''.3gp''), (''ogv'', ''.ogv'')]"

text \<open>
  \<open>out_path\<close> returns the path together with the file system that \<^verbatim>\<open>os.makedirs\<close>
  leaves, or the exception \<^verbatim>\<open>os.makedirs\<close> raises.
\<close>

definition out_path ::
  "Env \<Rightarrow> filesystem \<Rightarrow> string \<Rightarrow> string \<Rightarrow> string \<Rightarrow> py_exception + (string \<times> filesystem)" where
  "out_path env fs d s f =
     (let d1 = expanduser env d
      in case makedirs env fs d1 of
           Inl e \<Rightarrow> Inl e
         | Inr fs1 \<Rightarrow>
             let src_basename = basename s;
                 src_name = fst (splitext src_basename);
                 ext = (case map_of ext_map (lower f) of Some e \<Rightarrow> e | None \<Rightarrow> ''.'' @ f)
             in Inr (path_join d1 (src_name @ ext), fs1))"


subsection \<open>Destination that exists: the rename loop of \<^verbatim>\<open>Worker.run\<close>\<close>

text \<open>
  \<open>renamed base ext n\<close> is the f-string \<^verbatim>\<open>f"{base} ({counter}){ext}"\<close>. The loop of lines
  88 to 90 is \<open>rename_loop\<close>; it ends because the file system holds finitely many paths and
  the candidates are pairwise different. The file system does not change while it runs.
\<close>

definition renamed :: "string \<Rightarrow> string \<Rightarrow> nat \<Rightarrow> string" where
  "renamed base ext n = base @ '' ('' @ str_nat n @ '')'' @ ext"

lemma digit_val_char: "d < 10 \<Longrightarrow> digit_val (digit_char d) = d"
proof -
  assume "d < 10"
  then have "d = 0 \<or> d = 1 \<or> d = 2 \<or> d = 3 \<or> d = 4 \<or> d = 5 \<or> d = 6 \<or> d = 7 \<or> d = 8 \<or> d = 9"
    by arith
  then show ?thesis by (elim disjE) (simp_all add: digit_val_def digit_char_def)
qed

lemma int_of_digits_snoc: "int_of_digits (s @ [c]) = 10 * int_of_digits s + digit_val c"
  by (simp add: int_of_digits_def)

lemma int_of_digits_str_nat: "int_of_digits (str_nat n) = n"
proof (induction n rule: str_nat.induct)
  case (1 n)
  show ?case
  proof (cases "n < 10")
    case True
    then show ?thesis
      by (subst str_nat.simps) (simp add: int_of_digits_def digit_val_char)
  next
    case False
    have "int_of_digits (str_nat n) = 10 * int_of_digits (str_nat (n div 10)) + digit_val (digit_char (n mod 10))"
      using False by (subst str_nat.simps) (simp add: int_of_digits_snoc)
    also have "\<dots> = 10 * (n div 10) + n mod 10"
      using 1[OF False] by (simp add: digit_val_char)
    finally show ?thesis by simp
  qed
qed

lemma inj_str_nat: "inj str_nat"
  by (rule inj_on_inverseI[where g = int_of_digits]) (rule int_of_digits_str_nat)

lemma inj_renamed: "inj (renamed base ext)"
  using inj_str_nat by (auto simp: inj_def renamed_def)

function rename_loop :: "filesystem \<Rightarrow> string \<Rightarrow> string \<Rightarrow> string \<Rightarrow> nat \<Rightarrow> string" where
  "rename_loop fs base ext dst counter =
     (if path_exists fs dst
      then rename_loop fs base ext (renamed base ext counter) (counter + 1)
      else dst)"
  by pat_completeness auto
termination
proof (relation "measure (\<lambda>(fs, base, ext, dst, counter).
          card {n. counter \<le> n \<and> path_exists fs (renamed base ext n)} +
          (if path_exists fs dst then 1 else 0))", goal_cases)
  case 1
  show ?case by simp
next
  case (2 fs base ext dst counter)
  let ?P = "\<lambda>n. path_exists fs (renamed base ext n)"
  have "{n. ?P n} = renamed base ext -` set (map fst fs)"
    by (auto simp: path_exists_def)
  then have "finite {n. ?P n}"
    using finite_vimageI[OF _ inj_renamed, of "set (map fst fs)" base ext] by simp
  then have fin: "finite {n. counter + 1 \<le> n \<and> ?P n}"
    by (rule rev_finite_subset) auto
  have split: "{n. counter \<le> n \<and> ?P n} =
      (if ?P counter then insert counter {n. counter + 1 \<le> n \<and> ?P n}
       else {n. counter + 1 \<le> n \<and> ?P n})"
    by (auto simp: Suc_le_eq le_less)
  have "card {n. counter \<le> n \<and> ?P n} =
      card {n. counter + 1 \<le> n \<and> ?P n} + (if ?P counter then 1 else 0)"
    unfolding split using fin by simp
  then show ?case using 2 by simp
qed

declare rename_loop.simps [simp del]

definition resolve_rename :: "filesystem \<Rightarrow> string \<Rightarrow> string" where
  "resolve_rename fs dst = (case splitext dst of (base, ext) \<Rightarrow> rename_loop fs base ext dst 1)"

text \<open>A small file system and environment used to exercise the theorems.\<close>

definition demo_fs :: filesystem where
  "demo_fs = [(''out.mp3'', 4096), (''out (1).mp3'', 2048), (''a.wav'', 100000),
               (''a.mkv'', 5000000)]"

definition demo_env :: Env where
  "demo_env =
     \<lparr>platform_windows = False, ffmpeg_path = Some ''/usr/bin/ffmpeg'',
      expanduser = (\<lambda>p. p), makedirs = (\<lambda>fs d. Inr fs),
      shlex_split = (\<lambda>s. Some [s]), str_float = (\<lambda>r. str_int \<lfloor>r\<rfloor> @ ''.0'')\<rparr>"

definition windows_env :: Env where
  "windows_env = demo_env\<lparr>platform_windows := True\<rparr>"

subsection \<open>\<^verbatim>\<open>build_ffmpeg_cmd\<close> (\<^verbatim>\<open>util/ffmpeg.py\<close>)\<close>

text \<open>
  The keyword arguments of \<^verbatim>\<open>build_ffmpeg_cmd\<close> carry the names of the job's fields
  (\<^verbatim>\<open>fmt\<close> is \<open>format\<close>), so the model takes them as a \<open>Job\<close> record, the caller
  overriding the fields it passes differently; \<^verbatim>\<open>dst\<close> and the \<^verbatim>\<open>metadata\<close> dictionary
  (in insertion order) are separate arguments. The argument list is built left to right
  as in the source, and the places where the source edits the list built so far
  (\<^verbatim>\<open>cmd.index\<close>, \<^verbatim>\<open>cmd.pop\<close>, \<^verbatim>\<open>cmd[i] += ...\<close>) edit it here. Truth tests follow
  Python: \<open>None\<close>, the empty string and zero are false.
\<close>

definition opt_str :: "string option \<Rightarrow> string" where
  "opt_str x = (case x of None \<Rightarrow> [] | Some s \<Rightarrow> s)"

definition is_set :: "'a option \<Rightarrow> bool" where
  "is_set x = (case x of None \<Rightarrow> False | Some v \<Rightarrow> True)"

definition truthy_num :: "'a::zero option \<Rightarrow> bool" where
  "truthy_num x = (case x of None \<Rightarrow> False | Some v \<Rightarrow> v \<noteq> 0)"

definition get_or :: "('k \<times> 'v) list \<Rightarrow> 'k \<Rightarrow> 'v \<Rightarrow> 'v" where
  "get_or m k d = (case map_of m k of None \<Rightarrow> d | Some v \<Rightarrow> v)"

definition index_of :: "'a \<Rightarrow> 'a list \<Rightarrow> nat option" where
  "index_of x xs = (if x \<in> set xs then Some (length (takeWhile (\<lambda>y. y \<noteq> x) xs)) else None)"

fun join_with :: "string \<Rightarrow> string list \<Rightarrow> string" where
  "join_with sep [] = []"
| "join_with sep [x] = x"
| "join_with sep (x # y # ys) = x @ sep @ join_with sep (y # ys)"

definition video_exts :: "string list" where
  "video_exts =
     [''.mp4'', ''.mkv'', ''.avi'', ''.mov'', ''.wmv'', ''.flv'', ''.webm'', ''.m4v'',
      ''.3gp'', ''.3g2'', ''.asf'', ''.rm'', ''.rmvb'', ''.vob'', ''.ogv'', ''.mts'',
      ''.m2ts'', ''.ts'', ''.divx'', ''.f4v'', ''.mxf'', ''.mpg'', ''.mpeg'', ''.m2v'']"

definition is_video_file :: "string \<Rightarrow> bool" where
  "is_video_file p \<longleftrightarrow> lower (snd (splitext p)) \<in> set video_exts"

definition audio_codec_map :: "(string \<times> string) list" where
  "audio_codec_map =
     [(''mp3'', ''libmp3lame''), (''aac'', ''aac''), (''m4a'', ''aac''), (''opus'', ''libopus''),
      (''ogg'', ''libvorbis''), (''flac'', ''flac''), (''wav'', ''pcm_s16le''),
      (''aiff'', ''pcm_s16be''), (''wma'', ''wmav2''), (''ac3'', ''ac3''), (''eac3'', ''eac3''),
      (''ape'', ''ape''), (''tta'', ''tta''), (''wv'', ''wavpack''), (''mp2'', ''mp2''),
      (''amr'', ''amr_nb''), (''caf'', ''pcm_s16be''), (''au'', ''pcm_s16be''), (''mka'', ''copy'')]"

definition video_codec_map :: "(string \<times> string) list" where
  "video_codec_map =
     [(''mp4'', ''libx264''), (''mkv'', ''libx264''), (''webm'', ''libvpx-vp9''),
      (''avi'', ''libx264''), (''mov'', ''libx264''), (''wmv'', ''wmv2''), (''flv'', ''libx264''),
      (''m4v'', ''libx264''), (''3gp'', ''libx264''), (''ogv'', ''libtheora'')]"

definition video_audio_codec_map :: "(string \<times> string) list" where
  "video_audio_codec_map =
     [(''mp4'', ''aac''), (''mkv'', ''aac''), (''webm'', ''libopus''), (''avi'', ''aac''),
      (''mov'', ''aac''), (''wmv'', ''wmav2''), (''flv'', ''aac''), (''m4v'', ''aac''),
      (''3gp'', ''aac''), (''ogv'', ''libvorbis'')]"

definition format_map :: "(string \<times> string) list" where
  "format_map =
     [(''mp4'', ''mp4''), (''mkv'', ''matroska''), (''webm'', ''webm''), (''avi'', ''avi''),
      (''mov'', ''mov''), (''wmv'', ''asf''), (''flv'', ''flv''), (''m4v'', ''mp4''),
      (''3gp'', ''3gp''), (''ogv'', ''ogg''), (''mp3'', ''mp3''), (''aac'', ''adts''),
      (''m4a'', ''mp4''), (''flac'', ''flac''), (''wav'', ''wav''), (''ogg'', ''ogg''),
      (''opus'', ''ogg'')]"

definition quality_map :: "(string \<times> string \<times> string) list" where
  "quality_map =
     [(''low'', ''32'', ''fast''), (''medium'', ''28'', ''medium''),
      (''high'', ''23'', ''slow''), (''ultra'', ''18'', ''veryslow'')]"

definition cover_names :: "string list" where
  "cover_names =
     [''cover.jpg'', ''folder.jpg'', ''cover.png'', ''folder.png'', ''cover.jpeg'', ''folder.jpeg'']"

definition find_external_cover :: "filesystem \<Rightarrow> string \<Rightarrow> string option" where
  "find_external_cover fs s =
     List.find (path_exists fs) (map (path_join (dirname s)) cover_names)"

definition x26x :: "string \<Rightarrow> bool" where
  "x26x vcodec \<longleftrightarrow> vcodec \<in> set [''libx264'', ''libx265'']"

text \<open>The seek before the input and the duration limit after it (lines 233 to 243).\<close>

definition input_args :: "Env \<Rightarrow> Job \<Rightarrow> string \<Rightarrow> string list" where
  "input_args env j ffmpeg =
     [ffmpeg] @
     (case video_trim_start j of None \<Rightarrow> [] | Some a \<Rightarrow> [''-ss'', str_float env a]) @
     [''-i'', src j] @
     (case video_trim_end j of
        None \<Rightarrow> []
      | Some b \<Rightarrow>
          (case video_trim_start j of
             Some a \<Rightarrow> [''-t'', str_float env (b - a)]
           | None \<Rightarrow> [''-t'', str_float env b]))"

text \<open>The encoding mode of the extraction branch (lines 277 to 290).\<close>

definition vbr_args :: "Job \<Rightarrow> string list" where
  "vbr_args j =
     (let fl = lower (format j); q = opt_str (vbrq j)
      in if fl = ''mp3'' then [''-q:a'', q]
         else if fl \<in> set [''aac'', ''m4a''] then [''-q:a'', q]
         else if fl = ''opus'' then [''-b:a'', ''0'', ''-vbr'', ''on'', ''-compression_level'', q]
         else if fl = ''ogg'' then [''-q:a'', q]
         else [])"

definition lossless_args :: "Job \<Rightarrow> string list" where
  "lossless_args j = (if lower (format j) = ''flac'' then [''-compression_level'', ''12''] else [])"

definition extract_mode_args :: "Job \<Rightarrow> string list" where
  "extract_mode_args j =
     (if mode j = ''CBR'' \<and> opt_str (bitrate j) \<noteq> [] then [''-b:a'', opt_str (bitrate j) @ ''k'']
      else if mode j = ''VBR'' \<and> opt_str (vbrq j) \<noteq> [] then vbr_args j
      else if mode j = ''Lossless'' then lossless_args j
      else [])"

text \<open>The encoding mode of the audio to audio branch (lines 541 to 561).\<close>

definition audio_mode_args :: "Job \<Rightarrow> string list" where
  "audio_mode_args j =
     (if mode j = ''CBR'' \<and> opt_str (bitrate j) \<noteq> []
      then (if lower (format j) \<in> set [''mp3'', ''aac'', ''m4a'', ''opus'', ''ogg'']
            then [''-b:a'', opt_str (bitrate j) @ ''k''] else [])
      else if mode j = ''VBR'' \<and> opt_str (vbrq j) \<noteq> [] then vbr_args j
      else if mode j = ''Lossless'' then lossless_args j
      else [])"

text \<open>
  Sample rate, channels, audio trim and the audio filter chain, the same text in both
  audio branches (lines 292 to 323 and 563 to 594).
\<close>

definition rate_channel_args :: "Job \<Rightarrow> string list" where
  "rate_channel_args j =
     (if opt_str (sample_rate j) \<noteq> [] then [''-ar'', opt_str (sample_rate j)] else []) @
     (if opt_str (channels j) \<noteq> [] then [''-ac'', opt_str (channels j)] else [])"

definition audio_trim_args :: "Env \<Rightarrow> Job \<Rightarrow> string list" where
  "audio_trim_args env j =
     (if is_set (trim_start j) \<or> is_set (trim_end j)
      then (let start = (case trim_start j of None \<Rightarrow> 0 | Some a \<Rightarrow> a);
                start_str = (case trim_start j of None \<Rightarrow> ''0'' | Some a \<Rightarrow> str_float env a)
            in case trim_end j of
                 Some b \<Rightarrow> [''-ss'', start_str, ''-t'', str_float env (b - start)]
               | None \<Rightarrow> [''-ss'', start_str])
      else [])"

definition audio_filters :: "Env \<Rightarrow> Job \<Rightarrow> string list" where
  "audio_filters env j =
     (case fade_in j of
        None \<Rightarrow> []
      | Some a \<Rightarrow> if a \<noteq> 0 then [''afade=t=in:ss=0:d='' @ str_float env a] else []) @
     (case fade_out j of
        None \<Rightarrow> []
      | Some a \<Rightarrow> if a \<noteq> 0 then [''afade=t=out:st=0:d='' @ str_float env a] else []) @
     (if normalize_lufs j
      then [''loudnorm=I='' @ str_float env (target_lufs j) @ '':TP=-1.5:LRA=11''] else [])"

definition audio_filter_args :: "Env \<Rightarrow> Job \<Rightarrow> string list" where
  "audio_filter_args env j =
     (if audio_filters env j \<noteq> [] then [''-af'', join_with '','' (audio_filters env j)] else [])"

definition extract_branch :: "Env \<Rightarrow> Job \<Rightarrow> string list" where
  "extract_branch env j =
     [''-vn''] @ [''-c:a'', get_or audio_codec_map (lower (format j)) ''copy''] @
     extract_mode_args j @ rate_channel_args j @ audio_trim_args env j @ audio_filter_args env j"

definition audio_branch :: "Env \<Rightarrow> Job \<Rightarrow> string list" where
  "audio_branch env j =
     [''-c:a'', get_or audio_codec_map (lower (format j)) ''copy''] @
     audio_mode_args j @ rate_channel_args j @ audio_trim_args env j @ audio_filter_args env j"

text \<open>The video branch (lines 325 to 511).\<close>

definition pick_vcodec :: "Job \<Rightarrow> string" where
  "pick_vcodec j =
     (if reduce_size j \<and> use_hevc j
      then (if lower (format j) \<in> set [''mp4'', ''mkv'', ''m4v''] then ''libx265'' else ''libx264'')
      else if opt_str (video_codec j) \<noteq> [] then opt_str (video_codec j)
      else get_or video_codec_map (lower (format j)) ''libx264'')"

definition audio_map :: "Job \<Rightarrow> string" where
  "audio_map j =
     (case audio_track j of
        None \<Rightarrow> ''0:a:0''
      | Some a \<Rightarrow> if a \<ge> 0 then ''0:a:'' @ str_int a else ''0:a:0'')"

definition plain_map_args :: "Job \<Rightarrow> string list" where
  "plain_map_args j = [''-map'', ''0:v:0'', ''-map'', audio_map j]"

definition stream_map_args :: "Job \<Rightarrow> string list" where
  "stream_map_args j =
     (case subtitle_track j of
        None \<Rightarrow> plain_map_args j
      | Some t \<Rightarrow>
          if t \<ge> 0
          then [''-map'', ''0:v:0'', ''-map'', audio_map j, ''-map'', ''0:'' @ str_int t] @
               (if lower (format j) \<in> set [''mp4'', ''m4v''] then [''-c:s'', ''mov_text'']
                else if lower (format j) = ''mkv'' then [''-c:s'', ''copy'']
                else [''-c:s'', ''mov_text''])
          else plain_map_args j)"

definition crf_value :: "Job \<Rightarrow> string" where
  "crf_value j =
     (case size_reduction_factor j of
        None \<Rightarrow> ''28''
      | Some r \<Rightarrow>
          if r = 0 then ''28''
          else if r \<ge> 8 then ''30''
          else if r \<ge> 5 then ''28''
          else ''26'')"

definition rate_args :: "Job \<Rightarrow> string \<Rightarrow> string \<Rightarrow> string list" where
  "rate_args j vcodec dst =
     (if reduce_size j
      then (if x26x vcodec
            then [''-preset'', ''slow''] @
                 (if two_pass j
                  then [''-pass'', ''1''] @ [''-passlogfile'', dst @ ''.ffmpeg2pass'']
                  else [''-crf'', crf_value j])
            else if vcodec = ''libvpx-vp9'' then [''-crf'', crf_value j, ''-b:v'', ''0'']
            else [])
      else (if opt_str (video_bitrate j) \<noteq> [] then [''-b:v'', opt_str (video_bitrate j) @ ''k'']
            else if opt_str (video_quality j) \<noteq> []
            then (if x26x vcodec then [''-crf'', opt_str (video_quality j)]
                  else if vcodec = ''libvpx-vp9''
                  then [''-crf'', opt_str (video_quality j), ''-b:v'', ''0'']
                  else [])
            else []))"

text \<open>
  \<^verbatim>\<open>idx = cmd.index(flag); cmd.pop(idx); cmd.pop(idx)\<close> when the flag occurs: the second
  \<^verbatim>\<open>pop\<close> raises \<^verbatim>\<open>IndexError\<close> when the flag is the last element.
\<close>

definition remove_flag :: "string \<Rightarrow> string list \<Rightarrow> py_exception + string list" where
  "remove_flag flag cmd =
     (case index_of flag cmd of
        None \<Rightarrow> Inr cmd
      | Some i \<Rightarrow>
          if Suc i < length cmd then Inr (take i cmd @ drop (i + 2) cmd)
          else Inl (IndexError ''pop index out of range''))"

definition apply_quality_preset :: "Job \<Rightarrow> string \<Rightarrow> string list \<Rightarrow> py_exception + string list" where
  "apply_quality_preset j vcodec cmd =
     (if opt_str (video_quality_preset j) \<noteq> [] \<and> \<not> reduce_size j
      then (case map_of quality_map (lower (opt_str (video_quality_preset j))) of
              None \<Rightarrow> Inr cmd
            | Some (crf, preset) \<Rightarrow>
                if x26x vcodec
                then (case remove_flag ''-crf'' cmd of
                        Inl e \<Rightarrow> Inl e
                      | Inr c1 \<Rightarrow>
                          (case remove_flag ''-preset'' c1 of
                             Inl e \<Rightarrow> Inl e
                           | Inr c2 \<Rightarrow> Inr (c2 @ [''-crf'', crf, ''-preset'', preset])))
                else if vcodec = ''libvpx-vp9''
                then (case remove_flag ''-crf'' cmd of
                        Inl e \<Rightarrow> Inl e
                      | Inr c1 \<Rightarrow> Inr (c1 @ [''-crf'', crf, ''-b:v'', ''0'']))
                else Inr cmd)
      else Inr cmd)"

text \<open>
  A video filter is appended to the argument after an existing \<^verbatim>\<open>-vf\<close>, or added with
  a new \<^verbatim>\<open>-vf\<close> (lines 458 to 463 and 468 to 472).
\<close>

definition add_video_filter :: "string \<Rightarrow> string list \<Rightarrow> py_exception + string list" where
  "add_video_filter flt cmd =
     (case index_of ''-vf'' cmd of
        None \<Rightarrow> Inr (cmd @ [''-vf'', flt])
      | Some i \<Rightarrow>
          if Suc i < length cmd then Inr (cmd[Suc i := cmd ! Suc i @ '','' @ flt])
          else Inl (IndexError ''list index out of range''))"

definition crop_filter :: "Job \<Rightarrow> string option" where
  "crop_filter j =
     (if truthy_num (crop_width j) \<and> truthy_num (crop_height j)
      then (case (crop_width j, crop_height j) of
              (Some w, Some h) \<Rightarrow>
                Some (''crop='' @ str_int w @ '':'' @ str_int h @
                  (case (crop_x j, crop_y j) of
                     (Some x, Some y) \<Rightarrow> '':'' @ str_int x @ '':'' @ str_int y
                   | _ \<Rightarrow> []))
            | _ \<Rightarrow> None)
      else None)"

definition apply_crop :: "Job \<Rightarrow> string list \<Rightarrow> py_exception + string list" where
  "apply_crop j cmd = (case crop_filter j of None \<Rightarrow> Inr cmd | Some flt \<Rightarrow> add_video_filter flt cmd)"

definition apply_resolution :: "Job \<Rightarrow> string list \<Rightarrow> py_exception + string list" where
  "apply_resolution j cmd =
     (if opt_str (resolution j) \<noteq> []
      then add_video_filter
             (''scale='' @ map (\<lambda>c. if c = CHR ''x'' then CHR '':'' else c) (opt_str (resolution j))) cmd
      else Inr cmd)"

definition video_audio_args :: "Job \<Rightarrow> string \<Rightarrow> string list" where
  "video_audio_args j vcodec =
     (let acodec = get_or video_audio_codec_map (lower (format j)) ''aac''
      in (if opt_str (fps j) \<noteq> [] then [''-r'', opt_str (fps j)] else []) @
         [''-c:a'', acodec] @
         (if opt_str (bitrate j) \<noteq> [] then [''-b:a'', opt_str (bitrate j) @ ''k'']
          else if acodec = ''aac'' then [''-b:a'', ''192k'']
          else []) @
         rate_channel_args j @
         (if x26x vcodec \<and> \<not> reduce_size j then [''-preset'', ''medium''] else []))"

definition video_branch :: "Job \<Rightarrow> string \<Rightarrow> string list \<Rightarrow> py_exception + string list" where
  "video_branch j dst cmd0 =
     (let vcodec = pick_vcodec j;
          cmd1 = cmd0 @ [''-c:v'', vcodec] @ stream_map_args j @ rate_args j vcodec dst
      in case apply_quality_preset j vcodec cmd1 of
           Inl e \<Rightarrow> Inl e
         | Inr cmd2 \<Rightarrow>
             (case apply_crop j cmd2 of
                Inl e \<Rightarrow> Inl e
              | Inr cmd3 \<Rightarrow>
                  (case apply_resolution j cmd3 of
                     Inl e \<Rightarrow> Inl e
                   | Inr cmd4 \<Rightarrow> Inr (cmd4 @ video_audio_args j vcodec))))"

text \<open>Metadata, cover art, threads, custom arguments, null-sink format (lines 596 to 645).\<close>

definition metadata_args :: "Job \<Rightarrow> (string \<times> string option) list \<Rightarrow> string list" where
  "metadata_args j metadata =
     (if strip_meta j then []
      else (if copy_meta j then [''-map_metadata'', ''0''] else []) @
           concat (map (\<lambda>(key, v). if opt_str v \<noteq> [] then [''-metadata'', key @ ''='' @ opt_str v] else [])
                    metadata))"

definition cover_args :: "filesystem \<Rightarrow> Job \<Rightarrow> bool \<Rightarrow> string list" where
  "cover_args fs j dst_is_video =
     (if \<not> dst_is_video \<and> prefer_external_cover j
      then (case find_external_cover fs (src j) of
              None \<Rightarrow> []
            | Some cover_path \<Rightarrow>
                if cover_path \<noteq> [] \<and> path_exists fs cover_path
                then [''-i'', cover_path, ''-map'', ''0'', ''-map'', ''1'', ''-c:v'', ''copy'',
                      ''-disposition:v'', ''attached_pic'']
                else [])
      else [])"

definition threads_args :: "Job \<Rightarrow> string list" where
  "threads_args j = (if threads j > 1 then [''-threads'', str_int (threads j)] else [])"

definition is_null_sink :: "string \<Rightarrow> bool" where
  "is_null_sink dst \<longleftrightarrow> dst \<in> set [''NUL'', ''/dev/null'']"

definition null_format_args :: "Job \<Rightarrow> string \<Rightarrow> string list" where
  "null_format_args j dst =
     (if is_null_sink dst
      then [''-f'', get_or format_map (lower (format j)) (lower (format j))]
      else [])"

definition build_ffmpeg_cmd ::
  "Env \<Rightarrow> filesystem \<Rightarrow> Job \<Rightarrow> string \<Rightarrow> (string \<times> string option) list
     \<Rightarrow> py_exception + string list" where
  "build_ffmpeg_cmd env fs j dst metadata =
     (case ffmpeg_path env of
        None \<Rightarrow>
          Inl (RuntimeError (''FFmpeg not found. Please install FFmpeg and ensure it'' @
                 [CHR 0x27] @ ''s on PATH.''))
      | Some ffmpeg \<Rightarrow>
          let src_is_video = is_video_file (src j);
              dst_is_video = (if is_null_sink dst then src_is_video else is_video_file dst);
              cmd0 = input_args env j ffmpeg
          in case (if extract_audio_only j \<or> (src_is_video \<and> \<not> dst_is_video)
                   then Inr (cmd0 @ extract_branch env j)
                   else if dst_is_video then video_branch j dst cmd0
                   else Inr (cmd0 @ audio_branch env j)) of
               Inl e \<Rightarrow> Inl e
             | Inr cmd1 \<Rightarrow>
                 (case (if opt_str (custom_args j) \<noteq> []
                        then (case shlex_split env (opt_str (custom_args j)) of
                                None \<Rightarrow> Inl (ValueError ''No closing quotation'')
                              | Some toks \<Rightarrow> Inr toks)
                        else Inr []) of
                    Inl e \<Rightarrow> Inl e
                  | Inr toks \<Rightarrow>
                      Inr (cmd1 @ metadata_args j metadata @ cover_args fs j dst_is_video @
                           threads_args j @ toks @ null_format_args j dst @ [''-y'', dst])))"

subsection \<open>\<^verbatim>\<open>Worker.run\<close> (\<^verbatim>\<open>core/orchestrator.py\<close>)\<close>

text \<open>
  A run of a worker is the list of its effects in order: the signals it emits, the calls
  of \<^verbatim>\<open>run_ffmpeg\<close> with their argument lists, and the calls that end a process or
  remove a file. What the worker cannot decide itself is given by a \<open>World\<close>: the file
  system at the start, the stop flag it observes, the clock, and for each encoder process
  what it prints, how the two threads that watch it interleave, its exit code and the file
  system it leaves.

  The first pass is watched by two threads. \<^verbatim>\<open>read_stderr\<close> reads the diagnostic stream
  line by line and the loop of \<^verbatim>\<open>run\<close> polls the process; their interleaving is a list of
  \<open>tick\<close>s, one per loop iteration, each with the clock value read in that iteration.
  A worker that is paused when its run begins and is neither resumed nor stopped waits
  forever at line 64 and emits nothing (\<open>blocked_at_start\<close>); the pause waits inside the
  two loops are taken to return.
  \<^verbatim>\<open>read_stderr\<close> begins with \<^verbatim>\<open>import msvcrt\<close>, before its \<^verbatim>\<open>try\<close>: where that module
  does not exist (every platform but Windows) the reader thread ends at once and reads
  nothing, and the output of the process stays in the pipe until the worker's own
  \<^verbatim>\<open>proc.stderr.read()\<close> at line 452.

  The diagnostic stream is a list of lines (decoding and line splitting are not
  modelled); a read of the pipe returns all lines in it and leaves it empty.
\<close>

datatype effect =
    Sig_progress int pyfloat pyfloat pyfloat string string string
  | Sig_log int string
  | Sig_done int bool string string
  | Run_ffmpeg "string list"
  | Terminate
  | Kill
  | Remove_file string

datatype read_result = Got_line string | No_data | Read_failed string

datatype tick = Reader_tick pyfloat read_result | Main_tick pyfloat bool

record first_pass =
  fp_started :: bool
  fp_exited_at_once :: bool
  fp_early_stderr :: "py_exception + string list"
  fp_loop_start :: pyfloat
  fp_ticks :: "tick list"
  fp_rest :: "string list"
  fp_wait :: "int option"
  fp_fs :: filesystem

record second_pass =
  sp_started :: bool
  sp_stopped :: bool
  sp_wait :: int
  sp_now :: pyfloat
  sp_fs :: filesystem

record World =
  fs0 :: filesystem
  blocked_at_start :: bool
  stopped_at_start :: bool
  start_time :: pyfloat
  pass1 :: first_pass
  pass2 :: second_pass
  remove_error :: "string option"

datatype outcome = Returned | Raised py_exception

text \<open>Reading the pipe: everything in it, and the pipe left empty.\<close>

definition read_all :: "string list \<Rightarrow> string list \<times> string list" where
  "read_all pipe = (pipe, [])"

subsubsection \<open>Parsing the diagnostic lines (lines 246 to 276)\<close>

text \<open>
  \<open>search_stamp label s\<close> is \<^verbatim>\<open>re.search\<close> of the label followed by
  \<^verbatim>\<open>(\d{2}):(\d{2}):(\d{2})\.(\d{2})\<close>: the leftmost match, as four numbers.
  \<open>search_speed\<close> is \<^verbatim>\<open>re.search(r'speed=\s*([\d.]+)x')\<close> and \<open>search_frame\<close> is
  \<^verbatim>\<open>re.search(r'frame=\s*(\d+)')\<close>, each giving its group. Digits are the ASCII digits.
\<close>

definition stamp_at :: "string \<Rightarrow> (nat \<times> nat \<times> nat \<times> nat) option" where
  "stamp_at s =
     (if length s \<ge> 11 \<and> list_all is_digit (map ((!) s) [0, 1, 3, 4, 6, 7, 9, 10]) \<and>
         s ! 2 = CHR '':'' \<and> s ! 5 = CHR '':'' \<and> s ! 8 = CHR ''.''
      then Some (int_of_digits [s ! 0, s ! 1], int_of_digits [s ! 3, s ! 4],
                 int_of_digits [s ! 6, s ! 7], int_of_digits [s ! 9, s ! 10])
      else None)"

fun search_stamp :: "string \<Rightarrow> string \<Rightarrow> (nat \<times> nat \<times> nat \<times> nat) option" where
  "search_stamp label [] = None"
| "search_stamp label (c # cs) =
     (if starts_with label (c # cs)
      then (case stamp_at (drop (length label) (c # cs)) of
              Some r \<Rightarrow> Some r
            | None \<Rightarrow> search_stamp label cs)
      else search_stamp label cs)"

definition seconds_of :: "nat \<times> nat \<times> nat \<times> nat \<Rightarrow> pyfloat" where
  "seconds_of t =
     (case t of (h, m, s, ms) \<Rightarrow>
        of_nat h * 3600 + of_nat m * 60 + of_nat s + of_nat ms / 100)"

definition speed_at :: "string \<Rightarrow> string option" where
  "speed_at s =
     (let r = dropWhile is_space s;
          g = takeWhile (\<lambda>c. is_digit c \<or> c = CHR ''.'') r
      in if g \<noteq> [] \<and> starts_with ''x'' (drop (length g) r) then Some g else None)"

fun search_speed :: "string \<Rightarrow> string option" where
  "search_speed [] = None"
| "search_speed (c # cs) =
     (if starts_with ''speed='' (c # cs)
      then (case speed_at (drop 6 (c # cs)) of
              Some g \<Rightarrow> Some g
            | None \<Rightarrow> search_speed cs)
      else search_speed cs)"

definition frame_at :: "string \<Rightarrow> string option" where
  "frame_at s =
     (let g = takeWhile is_digit (dropWhile is_space s)
      in if g \<noteq> [] then Some g else None)"

fun search_frame :: "string \<Rightarrow> string option" where
  "search_frame [] = None"
| "search_frame (c # cs) =
     (if starts_with ''frame='' (c # cs)
      then (case frame_at (drop 6 (c # cs)) of
              Some g \<Rightarrow> Some g
            | None \<Rightarrow> search_frame cs)
      else search_frame cs)"

text \<open>\<^verbatim>\<open>f"{x:.2f}"\<close> of a non-negative number of hundredths.\<close>

definition str_2dp :: "pyfloat \<Rightarrow> string" where
  "str_2dp r =
     (let n = \<lfloor>r * 100\<rfloor>
      in str_int (n div 100) @ ''.'' @
         [digit_char (nat (n mod 100 div 10)), digit_char (nat (n mod 10))])"

subsubsection \<open>Watching the first pass (lines 204 to 330)\<close>

text \<open>
  The variables of the two loops. \<open>duration_seconds\<close> and \<open>last_progress_time\<close> are locals
  of \<^verbatim>\<open>read_stderr\<close>; \<open>last_check_time\<close> and \<open>elapsed\<close> are locals of \<^verbatim>\<open>run\<close>, and
  \<open>elapsed\<close> is unbound until the first heartbeat; \<open>polling\<close> is false once the loop of
  \<^verbatim>\<open>run\<close> has been left through \<^verbatim>\<open>break\<close>.
\<close>

record watch =
  duration_seconds :: "pyfloat option"
  last_progress_time :: pyfloat
  last_check_time :: pyfloat
  elapsed :: "pyfloat option"
  polling :: bool

definition progress_of :: "pyfloat \<Rightarrow> pyfloat \<Rightarrow> pyfloat" where
  "progress_of current_seconds duration = min 99 (current_seconds / duration * 100)"

text \<open>One line read by \<^verbatim>\<open>read_stderr\<close> (lines 236 to 276).\<close>

definition on_line :: "int \<Rightarrow> pyfloat \<Rightarrow> pyfloat \<Rightarrow> string \<Rightarrow> watch \<Rightarrow> effect list \<times> watch" where
  "on_line wid st now raw ws =
     (let line_str = strip raw
      in if line_str = [] then ([], ws)
         else
           let ws1 = ws\<lparr>last_progress_time := now\<rparr>;
               found = (case duration_seconds ws1 of
                          Some d \<Rightarrow> None
                        | None \<Rightarrow> search_stamp ''Duration: '' line_str);
               ws2 = (case found of
                        None \<Rightarrow> ws1
                      | Some t \<Rightarrow> ws1\<lparr>duration_seconds := Some (seconds_of t)\<rparr>);
               dur_log = (case found of
                            None \<Rightarrow> []
                          | Some t \<Rightarrow>
                              [Sig_log wid (''Detected duration: '' @ str_2dp (seconds_of t) @ ''s'')]);
               progress_match = search_stamp ''time='' line_str;
               dur = (case duration_seconds ws2 of None \<Rightarrow> 0 | Some d \<Rightarrow> d)
           in if is_set progress_match \<and> dur \<noteq> 0
              then (case progress_match of
                      None \<Rightarrow> ([Sig_log wid line_str] @ dur_log, ws2)
                    | Some t \<Rightarrow>
                        if dur > 0
                        then ([Sig_log wid line_str] @ dur_log @
                              [Sig_progress wid (progress_of (seconds_of t) dur) (now - st)
                                 (if seconds_of t < dur then dur - seconds_of t else 0)
                                 (case search_speed line_str of
                                    Some g \<Rightarrow> g @ ''x''
                                  | None \<Rightarrow> ''1.0x'')
                                 [] []], ws2)
                        else ([Sig_log wid line_str] @ dur_log, ws2))
              else if contains ''frame='' line_str \<and> \<not> is_set (duration_seconds ws2)
              then ([Sig_log wid line_str] @ dur_log @
                    (case search_frame line_str of
                       None \<Rightarrow> []
                     | Some g \<Rightarrow> [Sig_log wid (''Processing frames... (frame '' @ g @ '')'')]), ws2)
              else ([Sig_log wid line_str] @ dur_log, ws2))"

text \<open>One iteration of the loop of \<^verbatim>\<open>read_stderr\<close> (lines 218 to 278).\<close>

definition reader_step :: "int \<Rightarrow> pyfloat \<Rightarrow> pyfloat \<Rightarrow> read_result \<Rightarrow> watch \<Rightarrow> effect list \<times> watch" where
  "reader_step wid st now r ws =
     (let warn = (if now - last_progress_time ws > 30 \<and> \<not> is_set (duration_seconds ws)
                  then [Sig_log wid
                          ''Warning: No output from FFmpeg for 30.0s. Process may be stuck.'']
                  else [])
      in case r of
           Got_line raw \<Rightarrow> (case on_line wid st now raw ws of (es, ws1) \<Rightarrow> (warn @ es, ws1))
         | No_data \<Rightarrow> (warn, ws)
         | Read_failed msg \<Rightarrow>
             (warn @ (if contains ''peek'' (lower msg) then []
                      else [Sig_log wid (''Read error: '' @ msg)]), ws))"

text \<open>One iteration of the polling loop of \<^verbatim>\<open>run\<close> (lines 305 to 330).\<close>

definition main_step :: "int \<Rightarrow> pyfloat \<Rightarrow> pyfloat \<Rightarrow> bool \<Rightarrow> watch \<Rightarrow> effect list \<times> watch" where
  "main_step wid st now stop_seen ws =
     (if stop_seen then ([Terminate], ws\<lparr>polling := False\<rparr>)
      else if now - last_check_time ws > 5
      then ([Sig_progress wid (1 / 10) (now - st) 0 ''?'' [] []],
            ws\<lparr>elapsed := Some (now - st), last_check_time := now\<rparr>)
      else ([], ws))"

fun watch_pass :: "bool \<Rightarrow> int \<Rightarrow> pyfloat \<Rightarrow> tick list \<Rightarrow> watch \<Rightarrow> effect list \<times> watch" where
  "watch_pass reading wid st [] ws = ([], ws)"
| "watch_pass reading wid st (Reader_tick now r # ts) ws =
     (if reading
      then (case reader_step wid st now r ws of
              (es, ws1) \<Rightarrow>
                (case watch_pass reading wid st ts ws1 of (es2, ws2) \<Rightarrow> (es @ es2, ws2)))
      else watch_pass reading wid st ts ws)"
| "watch_pass reading wid st (Main_tick now stop_seen # ts) ws =
     (if polling ws
      then (case main_step wid st now stop_seen ws of
              (es, ws1) \<Rightarrow>
                (case watch_pass reading wid st ts ws1 of (es2, ws2) \<Rightarrow> (es @ es2, ws2)))
      else watch_pass reading wid st ts ws)"

text \<open>The lines the process wrote during the ticks, for a pipe that nobody read.\<close>

fun tick_lines :: "tick list \<Rightarrow> string list" where
  "tick_lines [] = []"
| "tick_lines (Reader_tick now (Got_line raw) # ts) = raw # tick_lines ts"
| "tick_lines (t # ts) = tick_lines ts"

text \<open>Logging what is left in the pipe: all of it (lines 281 to 288), or its last five lines
  (lines 452 to 459).\<close>

definition log_lines :: "int \<Rightarrow> string list \<Rightarrow> effect list" where
  "log_lines wid ls = map (\<lambda>l. Sig_log wid (strip l)) (filter (\<lambda>l. strip l \<noteq> []) ls)"

definition last_n :: "nat \<Rightarrow> 'a list \<Rightarrow> 'a list" where
  "last_n n xs = drop (length xs - n) xs"

subsubsection \<open>Failure messages\<close>

definition mentions :: "string list \<Rightarrow> string \<Rightarrow> bool" where
  "mentions ws l \<longleftrightarrow> strip l \<noteq> [] \<and> list_ex (\<lambda>w. contains w (lower l)) ws"

text \<open>The process ended within the first tenth of a second (lines 174 to 191).\<close>

definition early_exit_effects :: "int \<Rightarrow> py_exception + string list \<Rightarrow> effect list" where
  "early_exit_effects wid r =
     (case r of
        Inl e \<Rightarrow> [Sig_done wid False (''FFmpeg process exited immediately: '' @ str_exc e) []]
      | Inr ls \<Rightarrow>
          let error_lines = filter (mentions [''error'', ''failed'', ''invalid'']) ls;
              error_msg =
                (if ls = [] then ''FFmpeg process exited immediately''
                 else if error_lines \<noteq> [] then take 300 (last error_lines)
                 else take 300 (join_with [CHR 0x0A] (last_n 3 ls)))
          in [Sig_log wid (''Error: '' @ error_msg), Sig_done wid False error_msg []])"

text \<open>The message for a non-zero exit code, from the text just read from the pipe
  (lines 493 to 502).\<close>

definition failure_message :: "int \<Rightarrow> string list \<Rightarrow> string" where
  "failure_message return_code ls =
     (let stderr_text = join_with [CHR 0x0A] ls;
          error_lines = filter (mentions [''error'', ''failed'']) ls
      in if stderr_text = [] then ''Conversion failed with exit code '' @ str_int return_code
         else if error_lines \<noteq> [] then take 200 (last error_lines)
         else if length stderr_text > 200 then drop (length stderr_text - 200) stderr_text
         else stderr_text)"

subsubsection \<open>The end of a run whose exit code is zero (lines 463 to 491)\<close>

text \<open>
  \<^verbatim>\<open>speed_str\<close> is assigned at line 266 only, inside the nested function
  \<^verbatim>\<open>read_stderr\<close>, whose local it is. \<^verbatim>\<open>run\<close> never assigns it and the module has no
  global of that name, so in \<^verbatim>\<open>run\<close> the name has no value: \<open>run_speed_str\<close> is \<open>None\<close>,
  and reading it (lines 430 and 466) raises \<^verbatim>\<open>NameError\<close>. The arguments of the call
  are evaluated left to right, so an unbound \<^verbatim>\<open>elapsed\<close> is reported first.
\<close>

definition run_speed_str :: "string option" where
  "run_speed_str = None"

definition final_progress :: "int \<Rightarrow> pyfloat option \<Rightarrow> py_exception + effect" where
  "final_progress wid el =
     (case el of
        None \<Rightarrow> Inl (UnboundLocalError ''elapsed'')
      | Some e \<Rightarrow>
          (case run_speed_str of
             None \<Rightarrow> Inl (NameError ''speed_str'')
           | Some sp \<Rightarrow> Inr (Sig_progress wid 100 e 0 sp [] [])))"

definition saved_to :: "string \<Rightarrow> string" where
  "saved_to dst = [CHR 0x0A] @ ''Saved to: '' @ dst"

definition verify_output :: "World \<Rightarrow> filesystem \<Rightarrow> int \<Rightarrow> Job \<Rightarrow> string \<Rightarrow> effect list" where
  "verify_output wd fs wid j dst =
     (if \<not> path_exists fs dst
      then [Sig_done wid False (''Conversion completed but output file not found: '' @ dst) []]
      else if (case getsize fs dst of None \<Rightarrow> False | Some n \<Rightarrow> n < 1024)
      then [Sig_done wid False
              (''Output file is too small ('' @
               str_int (case getsize fs dst of None \<Rightarrow> 0 | Some n \<Rightarrow> n) @
               '' bytes) - conversion may have failed'') dst]
      else if delete_original j \<and> path_exists fs (src j)
      then (case remove_error wd of
              None \<Rightarrow>
                [Remove_file (src j),
                 Sig_done wid True (''Conversion completed, original file deleted'' @ saved_to dst) dst]
            | Some e \<Rightarrow>
                [Sig_done wid True
                   (''Conversion completed, but failed to delete original: '' @ e @ saved_to dst) dst])
      else [Sig_done wid True (''Conversion completed successfully'' @ saved_to dst) dst])"

subsubsection \<open>The second pass (lines 344 to 444)\<close>

definition two_pass_applies :: "Job \<Rightarrow> bool" where
  "two_pass_applies j \<longleftrightarrow> two_pass j \<and> reduce_size j \<and> \<not> extract_audio_only j"

definition null_sink :: "Env \<Rightarrow> string" where
  "null_sink env = (if platform_windows env then ''NUL'' else ''/dev/null'')"

text \<open>The arguments \<^verbatim>\<open>run\<close> passes to \<^verbatim>\<open>build_ffmpeg_cmd\<close> at line 102, and at line 356.\<close>

definition run_metadata :: "Job \<Rightarrow> (string \<times> string option) list" where
  "run_metadata j =
     (if strip_meta j then []
      else [(''title'', meta_title j), (''artist'', meta_artist j), (''album'', meta_album j),
            (''year'', meta_year j), (''genre'', meta_genre j), (''track'', meta_track j)])"

definition run_args :: "Job \<Rightarrow> Job" where
  "run_args j = j\<lparr>copy_meta := copy_meta j \<and> \<not> strip_meta j, strip_meta := False\<rparr>"

definition rebuild_args :: "Job \<Rightarrow> Job" where
  "rebuild_args j =
     (run_args j)\<lparr>two_pass := False, subtitle_track := None, trim_start := None, trim_end := None,
        fade_in := None, fade_out := None, video_trim_start := None, video_trim_end := None,
        crop_x := None, crop_y := None, crop_width := None, crop_height := None,
        video_quality_preset := None, audio_track := None\<rparr>"

text \<open>\<^verbatim>\<open>list.insert\<close> with Python's treatment of an index outside the list.\<close>

definition py_insert :: "int \<Rightarrow> 'a \<Rightarrow> 'a list \<Rightarrow> 'a list" where
  "py_insert i x xs =
     (let n = int (length xs);
          k = (if i < 0 then max 0 (i + n) else min i n)
      in take (nat k) xs @ [x] @ drop (nat k) xs)"

text \<open>Lines 349 to 353: \<open>None\<close> when \<^verbatim>\<open>ValueError\<close> or \<^verbatim>\<open>IndexError\<close> is raised.\<close>

definition patch_second_pass :: "string list \<Rightarrow> string \<Rightarrow> string \<Rightarrow> string list option" where
  "patch_second_pass cmd first_pass_dst dst =
     (case index_of ''-pass'' cmd of
        None \<Rightarrow> None
      | Some i \<Rightarrow>
          if Suc i < length cmd
          then (case index_of first_pass_dst (cmd[Suc i := ''2'']) of
                  None \<Rightarrow> None
                | Some k \<Rightarrow> Some ((cmd[Suc i := ''2''])[k := dst]))
          else None)"

text \<open>Lines 356 to 401.\<close>

definition rebuild_second_pass ::
  "Env \<Rightarrow> filesystem \<Rightarrow> Job \<Rightarrow> string \<Rightarrow> py_exception + string list" where
  "rebuild_second_pass env fs j dst =
     (case build_ffmpeg_cmd env fs (rebuild_args j) dst (run_metadata j) of
        Inl e \<Rightarrow> Inl e
      | Inr cmd \<Rightarrow>
          (case index_of ''-passlogfile'' cmd of
             Some i \<Rightarrow> Inr (py_insert (int i + 2) ''-pass'' (py_insert (int i + 2) ''2'' cmd))
           | None \<Rightarrow>
               (case index_of dst cmd of
                  None \<Rightarrow> Inl (ValueError ''list.index(x): x not in list'')
                | Some k \<Rightarrow>
                    Inr (py_insert (int k - 1) ''-pass''
                          (py_insert (int k - 1) ''2''
                            (py_insert (int k - 1) ''-passlogfile''
                              (py_insert (int k - 1) (dst @ ''.ffmpeg2pass'') cmd)))))))"

definition second_pass_cmd ::
  "Env \<Rightarrow> filesystem \<Rightarrow> Job \<Rightarrow> string list \<Rightarrow> string \<Rightarrow> string \<Rightarrow> py_exception + string list" where
  "second_pass_cmd env fs j cmd first_pass_dst dst =
     (case patch_second_pass cmd first_pass_dst dst of
        Some cmd2 \<Rightarrow> Inr cmd2
      | None \<Rightarrow> rebuild_second_pass env fs j dst)"

text \<open>Lines 434 to 442.\<close>

definition cleanup_pass_logs :: "filesystem \<Rightarrow> string \<Rightarrow> effect list" where
  "cleanup_pass_logs fs dst =
     (if path_exists fs (dst @ ''.ffmpeg2pass-0.log'')
      then [Remove_file (dst @ ''.ffmpeg2pass-0.log'')] else []) @
     (if path_exists fs (dst @ ''.ffmpeg2pass-0.log.mbtree'')
      then [Remove_file (dst @ ''.ffmpeg2pass-0.log.mbtree'')] else [])"

text \<open>
  The second pass. It returns its effects, the exit code and the value of \<^verbatim>\<open>elapsed\<close>
  afterwards, or the effects up to an exception.
\<close>

definition run_second_pass ::
  "Env \<Rightarrow> World \<Rightarrow> int \<Rightarrow> Job \<Rightarrow> string list \<Rightarrow> string \<Rightarrow> string \<Rightarrow> pyfloat option
     \<Rightarrow> effect list \<times> (py_exception + (int \<times> pyfloat option))" where
  "run_second_pass env wd wid j cmd first_pass_dst dst el =
     (case second_pass_cmd env (fp_fs (pass1 wd)) j cmd first_pass_dst dst of
        Inl e \<Rightarrow> ([], Inl e)
      | Inr cmd2 \<Rightarrow>
          if \<not> sp_started (pass2 wd) then ([Run_ffmpeg cmd2], Inr (1, el))
          else if sp_stopped (pass2 wd)
          then ([Run_ffmpeg cmd2, Terminate] @ cleanup_pass_logs (sp_fs (pass2 wd)) dst,
                Inr (1, el))
          else (case final_progress wid (Some (sp_now (pass2 wd) - start_time wd)) of
                  Inl e \<Rightarrow> ([Run_ffmpeg cmd2], Inl e)
                | Inr p \<Rightarrow>
                    ([Run_ffmpeg cmd2, p] @ cleanup_pass_logs (sp_fs (pass2 wd)) dst,
                     Inr (sp_wait (pass2 wd), Some (sp_now (pass2 wd) - start_time wd)))))"

subsubsection \<open>The whole run\<close>

text \<open>The destination after the duplicate policy (lines 80 to 90); \<open>None\<close> is the skip.\<close>

definition resolve_dst :: "Settings \<Rightarrow> filesystem \<Rightarrow> string \<Rightarrow> string option" where
  "resolve_dst st fs dst =
     (if path_exists fs dst
      then (let policy = (case on_exists st of None \<Rightarrow> ''overwrite'' | Some p \<Rightarrow> p)
            in if policy = ''skip'' then None
               else if policy = ''rename'' then Some (resolve_rename fs dst)
               else Some dst)
      else Some dst)"

text \<open>Lines 446 to 505: after the process, or processes, have ended.\<close>

definition finish_run ::
  "World \<Rightarrow> filesystem \<Rightarrow> int \<Rightarrow> Job \<Rightarrow> string \<Rightarrow> int \<Rightarrow> pyfloat option \<Rightarrow> string list
     \<Rightarrow> effect list \<times> outcome" where
  "finish_run wd fs wid j dst return_code el pipe =
     (case read_all pipe of
        (remaining_stderr, pipe1) \<Rightarrow>
          let tail_logs = log_lines wid (last_n 5 remaining_stderr)
          in if return_code = 0
             then (case final_progress wid el of
                     Inl e \<Rightarrow> (tail_logs, Raised e)
                   | Inr p \<Rightarrow> (tail_logs @ [p] @ verify_output wd fs wid j dst, Returned))
             else (case read_all pipe1 of
                     (stderr_lines, pipe2) \<Rightarrow>
                       (tail_logs @
                        [Sig_done wid False (failure_message return_code stderr_lines) []],
                        Returned)))"

text \<open>Lines 193 to 505: the process is running after the first tenth of a second.\<close>

definition run_encoder ::
  "Env \<Rightarrow> World \<Rightarrow> int \<Rightarrow> Job \<Rightarrow> string list \<Rightarrow> string \<Rightarrow> string \<Rightarrow> effect list \<times> outcome" where
  "run_encoder env wd wid j cmd first_pass_dst dst =
     (let p1 = pass1 wd;
          reading = platform_windows env;
          ws0 = \<lparr>duration_seconds = None, last_progress_time = start_time wd,
                 last_check_time = fp_loop_start p1, elapsed = None, polling = True\<rparr>;
          start_log = (if reading then [Sig_log wid ''Reading FFmpeg output...''] else []);
          pipe = (if reading then fp_rest p1 else tick_lines (fp_ticks p1) @ fp_rest p1);
          rest_logs = (if reading then log_lines wid (fst (read_all pipe)) else []);
          pipe1 = (if reading then snd (read_all pipe) else pipe)
      in case watch_pass reading wid (start_time wd) (fp_ticks p1) ws0 of
           (watched, ws) \<Rightarrow>
             (case fp_wait p1 of
                None \<Rightarrow>
                  (start_log @ watched @
                   [Kill, Sig_done wid False ''Conversion timed out after 1 hour'' []], Returned)
              | Some rc \<Rightarrow>
                  if two_pass_applies j \<and> rc = 0
                  then (case run_second_pass env wd wid j cmd first_pass_dst dst (elapsed ws) of
                          (effs, Inl e) \<Rightarrow> (start_log @ watched @ rest_logs @ effs, Raised e)
                        | (effs, Inr (rc2, el2)) \<Rightarrow>
                            (case finish_run wd (sp_fs (pass2 wd)) wid j dst rc2 el2 pipe1 of
                               (fin, res) \<Rightarrow>
                                 (start_log @ watched @ rest_logs @ effs @ fin, res)))
                  else (case finish_run wd (fp_fs p1) wid j dst rc (elapsed ws) pipe1 of
                          (fin, res) \<Rightarrow> (start_log @ watched @ rest_logs @ fin, res))))"

text \<open>Lines 71 to 191: up to the start of the process.\<close>

definition run_body :: "Env \<Rightarrow> World \<Rightarrow> int \<Rightarrow> Job \<Rightarrow> Settings \<Rightarrow> effect list \<times> outcome" where
  "run_body env wd wid j st =
     (if \<not> path_exists (fs0 wd) (src j)
         then ([Sig_done wid False (''Source file not found: '' @ src j) []], Returned)
         else
           (case out_path env (fs0 wd) (dst_dir j) (src j) (format j) of
              Inl e \<Rightarrow> ([], Raised e)
            | Inr (dst0, fs1) \<Rightarrow>
                (case resolve_dst st fs1 dst0 of
                   None \<Rightarrow> ([Sig_done wid True ''Skipped (file exists)'' dst0], Returned)
                 | Some dst \<Rightarrow>
                     let first_pass_dst = (if two_pass_applies j then null_sink env else dst)
                     in (case build_ffmpeg_cmd env fs1 (run_args j) first_pass_dst (run_metadata j) of
                           Inl e \<Rightarrow> ([], Raised e)
                         | Inr cmd \<Rightarrow>
                             let logs =
                                   [Sig_log wid (''Starting conversion: '' @ basename (src j)),
                                    Sig_log wid (''Format: '' @ format j @ '', Mode: '' @ mode j),
                                    Sig_log wid (''Output: '' @ dst),
                                    Sig_log wid (''FFmpeg command: '' @
                                      join_with '' '' (take 10 cmd) @ ''...''),
                                    Run_ffmpeg cmd]
                             in if \<not> fp_started (pass1 wd)
                                then (logs @
                                      [Sig_done wid False
                                         ''Failed to start FFmpeg - check if FFmpeg is installed and on PATH''
                                         []], Returned)
                                else if fp_exited_at_once (pass1 wd)
                                then (logs @ early_exit_effects wid (fp_early_stderr (pass1 wd)),
                                      Returned)
                                else (case run_encoder env wd wid j cmd first_pass_dst dst of
                                        (effs, res) \<Rightarrow> (logs @ effs, res))))))"

text \<open>
  \<^verbatim>\<open>Worker.run\<close>: the pause wait of lines 62 to 65, the stop check of lines 67 to 69, the body, and the handler of line 507
  for any exception the body raises. Its arguments are what \<^verbatim>\<open>run\<close> reads of the worker:
  \<^verbatim>\<open>self.wid\<close>, the fields of \<^verbatim>\<open>self.job\<close> and \<^verbatim>\<open>self.settings\<close>. \<^verbatim>\<open>run\<close> assigns to no
  attribute of the job: the job is an argument and there is no job among the effects.
\<close>

definition Worker_run :: "Env \<Rightarrow> World \<Rightarrow> int \<Rightarrow> Job \<Rightarrow> Settings \<Rightarrow> effect list" where
  "Worker_run env wd wid j st =
     (if blocked_at_start wd then []
      else if stopped_at_start wd then [Sig_done wid False ''Stopped by user'' []]
      else (case run_body env wd wid j st of
              (effs, Returned) \<Rightarrow> effs
            | (effs, Raised e) \<Rightarrow> effs @ [Sig_done wid False (''Error: '' @ str_exc e) []]))"

text \<open>The argument lists of the encoder invocations of a run, and its progress percentages.\<close>

fun invocations :: "effect list \<Rightarrow> string list list" where
  "invocations [] = []"
| "invocations (Run_ffmpeg cmd # es) = cmd # invocations es"
| "invocations (e # es) = invocations es"

fun percentages :: "effect list \<Rightarrow> pyfloat list" where
  "percentages [] = []"
| "percentages (Sig_progress wid p el eta sp pk tpk # es) = p # percentages es"
| "percentages (e # es) = percentages es"

fun completions :: "effect list \<Rightarrow> (bool \<times> string \<times> string) list" where
  "completions [] = []"
| "completions (Sig_done wid ok msg outp # es) = (ok, msg, outp) # completions es"
| "completions (e # es) = completions es"





text \<open>
  Concrete runs used below. A job converts \<^verbatim>\<open>a.wav\<close> to mp3. The run starts at time 0
  and the polling loop runs every half second. The encoder prints a duration of ten
  seconds after one second and a position of five seconds after two; after six seconds
  it prints a decoding error and ends.
\<close>

definition demo_job :: Job where
  "demo_job = Job_init ''a.wav'' ''out'' ''mp3''"

definition demo_ticks :: "tick list" where
  "demo_ticks =
     [Main_tick (1 / 2) False,
      Reader_tick 1 (Got_line ''  Duration: 00:00:10.00, start: 0.000000, bitrate: 1411 kb/s''),
      Main_tick 1 False, Main_tick (3 / 2) False,
      Reader_tick 2 (Got_line ''size=      64kB time=00:00:05.00 bitrate= 128.0kbits/s speed=1.25x''),
      Main_tick 2 False, Main_tick (5 / 2) False, Main_tick 3 False, Main_tick (7 / 2) False,
      Main_tick 4 False, Main_tick (9 / 2) False, Main_tick 5 False, Main_tick (11 / 2) False,
      Reader_tick 6 (Got_line ''Error while decoding stream #0:0: Invalid data found'')]"

definition demo_pass2 :: second_pass where
  "demo_pass2 = \<lparr>sp_started = True, sp_stopped = False, sp_wait = 0, sp_now = 20, sp_fs = demo_fs\<rparr>"

text \<open>The encoder exits with code 1.\<close>

definition failing_world :: World where
  "failing_world =
     \<lparr>fs0 = demo_fs, blocked_at_start = False, stopped_at_start = False, start_time = 0,
      pass1 = \<lparr>fp_started = True, fp_exited_at_once = False, fp_early_stderr = Inr [],
               fp_loop_start = 0, fp_ticks = demo_ticks, fp_rest = [],
               fp_wait = Some 1, fp_fs = demo_fs\<rparr>,
      pass2 = demo_pass2, remove_error = None\<rparr>"

text \<open>The encoder exits with code 0 and leaves an output file of 512 bytes.\<close>

definition small_output_fs :: filesystem where
  "small_output_fs = (''out/a.mp3'', 512) # demo_fs"

definition small_output_world :: World where
  "small_output_world =
     \<lparr>fs0 = demo_fs, blocked_at_start = False, stopped_at_start = False, start_time = 0,
      pass1 = \<lparr>fp_started = True, fp_exited_at_once = False, fp_early_stderr = Inr [],
               fp_loop_start = 0,
               fp_ticks =
                 [Main_tick (1 / 2) False,
                  Reader_tick 1 (Got_line ''size=       0kB time=00:00:00.01''),
                  Main_tick 1 False, Main_tick (3 / 2) False, Main_tick 2 False,
                  Main_tick (5 / 2) False, Main_tick 3 False, Main_tick (7 / 2) False,
                  Main_tick 4 False, Main_tick (9 / 2) False, Main_tick 5 False,
                  Main_tick (11 / 2) False],
               fp_rest = [], fp_wait = Some 0, fp_fs = small_output_fs\<rparr>,
      pass2 = demo_pass2, remove_error = None\<rparr>"


definition skip_settings :: Settings where
  "skip_settings = \<lparr>parallel = Some 2, on_exists = Some ''skip'', codec_threads = None\<rparr>"

definition skip_world :: World where
  "skip_world = failing_world\<lparr>fs0 := (''out/a.mp3'', 4096) # demo_fs\<rparr>"



subsection \<open>Workers and the orchestrator (\<^verbatim>\<open>core/orchestrator.py\<close>)\<close>

text \<open>
  Jobs are Python objects, shared by reference between the caller, the pending queue and
  the workers: the orchestrator state holds a store of job objects (\<open>job_store\<close>, from
  reference to value), and the queue and the workers hold references. Submitting the same
  reference twice is the same object queued twice. The assignment
  \<^verbatim>\<open>job.threads = ...\<close> of line 547 updates the object in the store, and is also recorded
  in \<open>thread_writes\<close>, the list of the assignments to a job attribute made so far (the
  reference and the value written); no other statement of the orchestrator or of the
  worker assigns to an attribute of a job.

  \<^verbatim>\<open>Orchestrator.workers\<close> is a dictionary from worker id to worker; it is an association
  list in insertion order and \<^verbatim>\<open>len(self.workers)\<close> is its length. \<^verbatim>\<open>_process_queue\<close> is
  \<open>process_queue\<close>: \<open>can_admit\<close> is the loop condition and \<open>admit\<close> the loop body. The
  slot \<^verbatim>\<open>_on_worker_done\<close> is \<open>on_worker_done\<close>. Signals are delivered on the
  orchestrator's thread, one at a time: a run of the orchestrator is a list of calls.
\<close>

record Worker =
  w_wid :: int
  w_job :: nat
  w_settings :: Settings
  w_paused :: bool
  w_stopped :: bool

definition Worker_init :: "int \<Rightarrow> nat \<Rightarrow> Settings \<Rightarrow> Worker" where
  "Worker_init i r st =
     \<lparr>w_wid = i, w_job = r, w_settings = st, w_paused = False, w_stopped = False\<rparr>"

definition pause :: "Worker \<Rightarrow> Worker" where
  "pause w = w\<lparr>w_paused := True\<rparr>"

definition resume :: "Worker \<Rightarrow> Worker" where
  "resume w = w\<lparr>w_paused := False\<rparr>"

definition stop :: "Worker \<Rightarrow> Worker" where
  "stop w = w\<lparr>w_stopped := True, w_paused := False\<rparr>"

datatype orch_signal =
    Sig_worker_started int string
  | Sig_worker_done int bool string string

record Orchestrator =
  threads_per_job :: int
  max_parallel :: int
  workers :: "(int \<times> Worker) list"
  job_queue :: "nat list"
  settings :: Settings
  next_wid :: int
  emitted :: "orch_signal list"
  job_store :: "nat \<Rightarrow> Job"
  thread_writes :: "(nat \<times> int) list"

text \<open>\<^verbatim>\<open>Orchestrator.__init__\<close>, in a world whose job objects are \<open>h\<close>.\<close>

definition Orchestrator_init :: "(nat \<Rightarrow> Job) \<Rightarrow> int \<Rightarrow> int \<Rightarrow> Orchestrator" where
  "Orchestrator_init h tpj mp =
     \<lparr>threads_per_job = tpj, max_parallel = mp, workers = [], job_queue = [],
      settings = empty_settings, next_wid = 1, emitted = [], job_store = h,
      thread_writes = []\<rparr>"

definition set_settings :: "Settings \<Rightarrow> Orchestrator \<Rightarrow> Orchestrator" where
  "set_settings st s =
     s\<lparr>settings := st, max_parallel := (case parallel st of None \<Rightarrow> 2 | Some p \<Rightarrow> p)\<rparr>"

definition thread_count :: "Settings \<Rightarrow> string \<Rightarrow> int" where
  "thread_count st f =
     (case map_of (case codec_threads st of None \<Rightarrow> [] | Some ct \<Rightarrow> ct) f of
        None \<Rightarrow> 1 | Some n \<Rightarrow> n)"

definition can_admit :: "Orchestrator \<Rightarrow> bool" where
  "can_admit s \<longleftrightarrow> int (length (workers s)) < max_parallel s \<and> job_queue s \<noteq> []"

definition admit :: "Orchestrator \<Rightarrow> Orchestrator" where
  "admit s =
     (case job_queue s of
        [] \<Rightarrow> s
      | r # rest \<Rightarrow>
          let i = next_wid s;
              n = thread_count (settings s) (format (job_store s r));
              w = Worker_init i r (settings s)
          in s\<lparr>job_queue := rest,
                next_wid := i + 1,
                job_store := (job_store s)(r := (job_store s r)\<lparr>threads := n\<rparr>),
                thread_writes := thread_writes s @ [(r, n)],
                workers := AList.update i w (workers s),
                emitted := emitted s @ [Sig_worker_started i (src (job_store s r))]\<rparr>)"

function process_queue :: "Orchestrator \<Rightarrow> Orchestrator" where
  "process_queue s = (if can_admit s then process_queue (admit s) else s)"
  by pat_completeness auto
termination
  by (relation "measure (\<lambda>s. length (job_queue s))")
     (auto simp: can_admit_def admit_def Let_def split: list.splits)

declare process_queue.simps [simp del]

definition enqueue :: "nat list \<Rightarrow> Orchestrator \<Rightarrow> Orchestrator" where
  "enqueue js s = process_queue (s\<lparr>job_queue := job_queue s @ js\<rparr>)"

definition worker_removed :: "int \<Rightarrow> bool \<Rightarrow> string \<Rightarrow> string \<Rightarrow> Orchestrator \<Rightarrow> Orchestrator" where
  "worker_removed i ok msg outp s =
     (let s1 = (if i \<in> fst ` set (workers s)
                then s\<lparr>workers := AList.delete i (workers s)\<rparr> else s)
      in s1\<lparr>emitted := emitted s1 @ [Sig_worker_done i ok msg outp]\<rparr>)"

definition on_worker_done :: "int \<Rightarrow> bool \<Rightarrow> string \<Rightarrow> string \<Rightarrow> Orchestrator \<Rightarrow> Orchestrator" where
  "on_worker_done i ok msg outp s = process_queue (worker_removed i ok msg outp s)"

definition pause_worker :: "int \<Rightarrow> Orchestrator \<Rightarrow> Orchestrator" where
  "pause_worker i s = s\<lparr>workers := AList.map_entry i pause (workers s)\<rparr>"

definition resume_worker :: "int \<Rightarrow> Orchestrator \<Rightarrow> Orchestrator" where
  "resume_worker i s = s\<lparr>workers := AList.map_entry i resume (workers s)\<rparr>"

definition stop_worker :: "int \<Rightarrow> Orchestrator \<Rightarrow> Orchestrator" where
  "stop_worker i s = s\<lparr>workers := AList.map_entry i stop (workers s)\<rparr>"

definition pause_all :: "Orchestrator \<Rightarrow> Orchestrator" where
  "pause_all s = s\<lparr>workers := map (\<lambda>(i, w). (i, pause w)) (workers s)\<rparr>"

definition resume_all :: "Orchestrator \<Rightarrow> Orchestrator" where
  "resume_all s = s\<lparr>workers := map (\<lambda>(i, w). (i, resume w)) (workers s)\<rparr>"

definition stop_all :: "Orchestrator \<Rightarrow> Orchestrator" where
  "stop_all s = s\<lparr>workers := [], job_queue := []\<rparr>"

text \<open>
  The terminal event of a worker: \<open>completion_of\<close> is the first completion signal of its
  run, on the job object as the store holds it. \<open>worker_finishes\<close> is a worker thread
  running \<^verbatim>\<open>Worker.run\<close> to its end and the orchestrator handling the signal.
\<close>

definition completion_of ::
  "Env \<Rightarrow> World \<Rightarrow> Orchestrator \<Rightarrow> Worker \<Rightarrow> (bool \<times> string \<times> string) option" where
  "completion_of env wd s w =
     (case completions (Worker_run env wd (w_wid w) (job_store s (w_job w)) (w_settings w)) of
        [] \<Rightarrow> None
      | c # cs \<Rightarrow> Some c)"

definition worker_finishes :: "Env \<Rightarrow> World \<Rightarrow> int \<Rightarrow> Orchestrator \<Rightarrow> Orchestrator" where
  "worker_finishes env wd i s =
     (case map_of (workers s) i of
        None \<Rightarrow> s
      | Some w \<Rightarrow>
          (case completion_of env wd s w of
             None \<Rightarrow> s
           | Some (ok, msg, outp) \<Rightarrow> on_worker_done (w_wid w) ok msg outp s))"

text \<open>
  The calls an orchestrator receives: submissions, completion signals (of any worker id,
  at any time), the run of an active worker to its terminal event, and the pause, resume
  and stop requests.
\<close>

datatype call =
    Enqueue "nat list"
  | Worker_done int bool string string
  | Worker_finishes Env World int
  | Pause_worker int
  | Resume_worker int
  | Stop_worker int
  | Pause_all
  | Resume_all
  | Stop_all

fun handle :: "call \<Rightarrow> Orchestrator \<Rightarrow> Orchestrator" where
  "handle (Enqueue js) s = enqueue js s"
| "handle (Worker_done i ok msg outp) s = on_worker_done i ok msg outp s"
| "handle (Worker_finishes env wd i) s = worker_finishes env wd i s"
| "handle (Pause_worker i) s = pause_worker i s"
| "handle (Resume_worker i) s = resume_worker i s"
| "handle (Stop_worker i) s = stop_worker i s"
| "handle Pause_all s = pause_all s"
| "handle Resume_all s = resume_all s"
| "handle Stop_all s = stop_all s"

fun handle_all :: "call list \<Rightarrow> Orchestrator \<Rightarrow> Orchestrator" where
  "handle_all [] s = s"
| "handle_all (c # cs) s = handle_all cs (handle c s)"

text \<open>
  The states the orchestrator passes through: \<open>pq_states\<close> lists the state after every
  iteration of the admission loop, \<open>handle_states\<close> the states inside one call and
  \<open>visited\<close> all states of a run, so that an invariant of \<open>visited\<close> holds at every
  moment and not only between calls.
\<close>

function pq_states :: "Orchestrator \<Rightarrow> Orchestrator list" where
  "pq_states s = (if can_admit s then admit s # pq_states (admit s) else [])"
  by pat_completeness auto
termination
  by (relation "measure (\<lambda>s. length (job_queue s))")
     (auto simp: can_admit_def admit_def Let_def split: list.splits)

declare pq_states.simps [simp del]

definition done_states :: "int \<Rightarrow> bool \<Rightarrow> string \<Rightarrow> string \<Rightarrow> Orchestrator \<Rightarrow> Orchestrator list" where
  "done_states i ok msg outp s =
     worker_removed i ok msg outp s # pq_states (worker_removed i ok msg outp s)"

fun handle_states :: "call \<Rightarrow> Orchestrator \<Rightarrow> Orchestrator list" where
  "handle_states (Enqueue js) s =
     s\<lparr>job_queue := job_queue s @ js\<rparr> # pq_states (s\<lparr>job_queue := job_queue s @ js\<rparr>)"
| "handle_states (Worker_done i ok msg outp) s = done_states i ok msg outp s"
| "handle_states (Worker_finishes env wd i) s =
     (case map_of (workers s) i of
        None \<Rightarrow> [s]
      | Some w \<Rightarrow>
          (case completion_of env wd s w of
             None \<Rightarrow> [s]
           | Some (ok, msg, outp) \<Rightarrow> done_states (w_wid w) ok msg outp s))"
| "handle_states c s = [handle c s]"

fun visited :: "call list \<Rightarrow> Orchestrator \<Rightarrow> Orchestrator list" where
  "visited [] s = [s]"
| "visited (c # cs) s = s # handle_states c s @ visited cs (handle c s)"

text \<open>The references submitted by a list of calls, in order.\<close>

fun submitted :: "call list \<Rightarrow> nat list" where
  "submitted [] = []"
| "submitted (Enqueue js # cs) = js @ submitted cs"
| "submitted (c # cs) = submitted cs"

text \<open>The number of assignments made to an attribute of the job object \<open>r\<close>.\<close>

definition writes_to :: "Orchestrator \<Rightarrow> nat \<Rightarrow> nat" where
  "writes_to s r = count_list (map fst (thread_writes s)) r"

subsection \<open>Bookkeeping for the orchestrator's invariants\<close>

definition wids :: "Orchestrator \<Rightarrow> int list" where
  "wids s = map fst (workers s)"

definition orch_inv :: "Orchestrator \<Rightarrow> bool" where
  "orch_inv s \<longleftrightarrow>
     distinct (wids s) \<and> (\<forall>i \<in> set (wids s). i < next_wid s) \<and>
     int (length (wids s)) \<le> max_parallel s"

text \<open>
  What holds of the job objects in every state: relative to the objects \<open>h\<close> and the
  settings \<open>st\<close> at the start and the references \<open>js\<close> submitted so far.
\<close>

definition frame_inv :: "(nat \<Rightarrow> Job) \<Rightarrow> Settings \<Rightarrow> int \<Rightarrow> nat list \<Rightarrow> Orchestrator \<Rightarrow> bool" where
  "frame_inv h st n0 js s \<longleftrightarrow>
     settings s = st \<and>
     (\<forall>r. job_store s r = (h r)\<lparr>threads := threads (job_store s r)\<rparr>) \<and>
     (\<forall>p \<in> set (thread_writes s). snd p = thread_count st (format (h (fst p)))) \<and>
     (\<forall>r. threads (job_store s r) =
             (if r \<in> fst ` set (thread_writes s) then thread_count st (format (h r))
              else threads (h r))) \<and>
     (\<forall>p \<in> set (workers s). w_job (snd p) \<in> fst ` set (thread_writes s)) \<and>
     (\<forall>r. writes_to s r + count_list (job_queue s) r \<le> count_list js r) \<and>
     int (length (thread_writes s)) = next_wid s - n0"

text \<open>
  The store differs from \<open>h\<close> in no field other than \<open>threads\<close>.
\<close>

definition store_frame :: "(nat \<Rightarrow> Job) \<Rightarrow> Orchestrator \<Rightarrow> bool" where
  "store_frame h s \<longleftrightarrow> (\<forall>r. \<exists>n. job_store s r = (h r)\<lparr>threads := n\<rparr>)"

text \<open>
  A concrete orchestrator used to exercise the theorems: two slots, and job objects under
  the references 7, 8 and 9.
\<close>

definition demo_store :: "nat \<Rightarrow> Job" where
  "demo_store r =
     (if r = 7 then Job_init ''a.wav'' ''out'' ''mp3''
      else if r = 8 then Job_init ''b.wav'' ''out'' ''flac''
      else Job_init ''c.wav'' ''out'' ''xyz'')"

definition demo_orch :: Orchestrator where
  "demo_orch = set_settings demo_settings (Orchestrator_init demo_store 1 2)"

text \<open>The same orchestrator with a single slot.\<close>

definition single_slot_orch :: Orchestrator where
  "single_slot_orch = demo_orch\<lparr>max_parallel := 1\<rparr>"

section \<open>Lemmas about the orchestrator\<close>

lemma update_fresh: "k \<notin> set (map fst al) \<Longrightarrow> AList.update k v al = al @ [(k, v)]"
  by (induction al) auto

lemma length_wids: "length (wids s) = length (workers s)"
  by (simp add: wids_def)

lemma admit_fresh:
  assumes "orch_inv s" and "job_queue s = r # rest"
  shows "admit s = s\<lparr>job_queue := rest, next_wid := next_wid s + 1,
            job_store := (job_store s)
              (r := (job_store s r)\<lparr>threads := thread_count (settings s) (format (job_store s r))\<rparr>),
            thread_writes := thread_writes s @
              [(r, thread_count (settings s) (format (job_store s r)))],
            workers := workers s @ [(next_wid s, Worker_init (next_wid s) r (settings s))],
            emitted := emitted s @ [Sig_worker_started (next_wid s) (src (job_store s r))]\<rparr>"
proof -
  have "next_wid s \<notin> set (map fst (workers s))"
    using assms(1) unfolding orch_inv_def wids_def by blast
  then show ?thesis
    using assms(2) by (simp add: admit_def Let_def update_fresh)
qed

lemma admit_inv:
  assumes "orch_inv s" "can_admit s"
  shows "orch_inv (admit s)"
proof -
  obtain j rest where q: "job_queue s = j # rest"
    using assms(2) by (auto simp: can_admit_def neq_Nil_conv)
  have lt: "int (length (wids s)) < max_parallel s"
    using assms(2) by (simp add: can_admit_def wids_def)
  have d: "distinct (wids s)" and b: "\<forall>i \<in> set (wids s). i < next_wid s"
    using assms(1) by (simp_all add: orch_inv_def)
  have w: "wids (admit s) = wids s @ [next_wid s]"
    by (simp add: admit_fresh[OF assms(1) q] wids_def)
  have n: "next_wid (admit s) = next_wid s + 1" "max_parallel (admit s) = max_parallel s"
    by (simp_all add: admit_fresh[OF assms(1) q])
  have "distinct (wids s @ [next_wid s])" using d b by auto
  moreover have "\<forall>i \<in> set (wids s @ [next_wid s]). i < next_wid s + 1" using b by auto
  moreover have "int (length (wids s @ [next_wid s])) \<le> max_parallel s" using lt by simp
  ultimately show ?thesis unfolding orch_inv_def w n by blast
qed

lemma process_queue_admit: "can_admit s \<Longrightarrow> process_queue s = process_queue (admit s)"
  by (subst process_queue.simps) simp

lemma process_queue_full: "\<not> can_admit s \<Longrightarrow> process_queue s = s"
  by (subst process_queue.simps) simp

lemma last_pq_states: "process_queue s = last (s # pq_states s)"
proof (induction s rule: process_queue.induct)
  case (1 s)
  show ?case
  proof (cases "can_admit s")
    case True
    have "process_queue s = last (admit s # pq_states (admit s))"
      using 1[OF True] True by (simp add: process_queue_admit)
    also have "\<dots> = last (s # pq_states s)"
      using True by (subst (2) pq_states.simps) simp
    finally show ?thesis .
  next
    case False
    then show ?thesis
      by (subst pq_states.simps) (simp add: process_queue_full)
  qed
qed

lemma pq_states_inv: "orch_inv s \<Longrightarrow> \<forall>t \<in> set (pq_states s). orch_inv t"
proof (induction s rule: pq_states.induct)
  case (1 s)
  show ?case
  proof (cases "can_admit s")
    case True
    have a: "orch_inv (admit s)" using 1(2) True by (rule admit_inv)
    have "\<forall>t \<in> set (pq_states (admit s)). orch_inv t" using True a by (rule 1(1))
    then show ?thesis
      using a True by (subst pq_states.simps) simp
  next
    case False
    then show ?thesis by (subst pq_states.simps) simp
  qed
qed

lemma process_queue_inv: "orch_inv s \<Longrightarrow> orch_inv (process_queue s)"
proof -
  assume inv: "orch_inv s"
  have "last (s # pq_states s) \<in> set (s # pq_states s)" by (rule last_in_set) simp
  then show ?thesis
    using inv pq_states_inv[OF inv] unfolding last_pq_states by auto
qed

lemma wids_removed:
  "wids (worker_removed i ok msg outp s) = removeAll i (wids s)"
proof (cases "i \<in> fst ` set (workers s)")
  case True
  then show ?thesis by (simp add: worker_removed_def Let_def wids_def delete_keys)
next
  case False
  then have "i \<notin> set (map fst (workers s))" by simp
  then show ?thesis
    using False by (simp add: worker_removed_def Let_def wids_def del: set_map)
qed

lemma worker_removed_fields:
  "max_parallel (worker_removed i ok msg outp s) = max_parallel s"
  "next_wid (worker_removed i ok msg outp s) = next_wid s"
  "job_queue (worker_removed i ok msg outp s) = job_queue s"
  "settings (worker_removed i ok msg outp s) = settings s"
  "job_store (worker_removed i ok msg outp s) = job_store s"
  "thread_writes (worker_removed i ok msg outp s) = thread_writes s"
  by (simp_all add: worker_removed_def Let_def)

lemma worker_removed_inv: "orch_inv s \<Longrightarrow> orch_inv (worker_removed i ok msg outp s)"
proof -
  assume inv: "orch_inv s"
  have "length (removeAll i (wids s)) \<le> length (wids s)"
    by (simp add: removeAll_filter_not_eq)
  then have l: "int (length (removeAll i (wids s))) \<le> int (length (wids s))"
    by simp
  have d: "distinct (removeAll i (wids s))"
    using inv by (simp add: orch_inv_def distinct_removeAll)
  have b: "\<forall>k \<in> set (removeAll i (wids s)). k < next_wid s"
    using inv by (simp add: orch_inv_def)
  have "int (length (removeAll i (wids s))) \<le> max_parallel s"
    using inv l unfolding orch_inv_def by linarith
  then show ?thesis
    using d b unfolding orch_inv_def wids_removed worker_removed_fields by blast
qed

lemma on_worker_done_inv: "orch_inv s \<Longrightarrow> orch_inv (on_worker_done i ok msg outp s)"
  by (simp add: on_worker_done_def process_queue_inv worker_removed_inv)

lemma worker_finishes_inv: "orch_inv s \<Longrightarrow> orch_inv (worker_finishes env wd i s)"
  by (simp add: worker_finishes_def on_worker_done_inv split: option.splits)

lemma map_fst_map_entry: "map fst (AList.map_entry k f al) = map fst al"
  by (induction al) auto

lemma map_entry_inv:
  "orch_inv s \<Longrightarrow> orch_inv (s\<lparr>workers := AList.map_entry k f (workers s)\<rparr>)"
  by (simp add: orch_inv_def wids_def map_fst_map_entry)

lemma map_fst_all: "map fst (map (\<lambda>(i, w). (i, f w)) al) = map fst al"
  by (induction al) auto

lemma map_all_inv:
  "orch_inv s \<Longrightarrow> orch_inv (s\<lparr>workers := map (\<lambda>(i, w). (i, f w)) (workers s)\<rparr>)"
proof -
  assume inv: "orch_inv s"
  have "wids (s\<lparr>workers := map (\<lambda>(i, w). (i, f w)) (workers s)\<rparr>) = wids s"
    unfolding wids_def using map_fst_all[of f "workers s"] by simp
  then show ?thesis using inv by (simp add: orch_inv_def)
qed

lemma stop_all_inv: "orch_inv s \<Longrightarrow> orch_inv (stop_all s)"
  by (auto simp: orch_inv_def wids_def stop_all_def)

lemma extend_inv: "orch_inv s \<Longrightarrow> orch_inv (s\<lparr>job_queue := q\<rparr>)"
  by (simp add: orch_inv_def wids_def)

lemma handle_inv: "orch_inv s \<Longrightarrow> orch_inv (handle c s)"
proof (cases c)
  case (Enqueue js)
  then show "orch_inv s \<Longrightarrow> ?thesis"
    by (simp add: enqueue_def process_queue_inv extend_inv)
next
  case (Worker_done i ok msg outp)
  then show "orch_inv s \<Longrightarrow> ?thesis"
    by (simp add: on_worker_done_inv)
next
  case (Worker_finishes env wd i)
  then show "orch_inv s \<Longrightarrow> ?thesis"
    by (simp add: worker_finishes_inv)
qed (simp_all add: pause_worker_def resume_worker_def stop_worker_def pause_all_def
       resume_all_def map_entry_inv map_all_inv stop_all_inv)

lemma done_states_inv: "orch_inv s \<Longrightarrow> \<forall>t \<in> set (done_states i ok msg outp s). orch_inv t"
proof -
  assume inv: "orch_inv s"
  have a: "orch_inv (worker_removed i ok msg outp s)" using inv by (rule worker_removed_inv)
  have "\<forall>t \<in> set (pq_states (worker_removed i ok msg outp s)). orch_inv t"
    using a by (rule pq_states_inv)
  then show ?thesis using a by (simp add: done_states_def)
qed

lemma handle_states_inv: "orch_inv s \<Longrightarrow> \<forall>t \<in> set (handle_states c s). orch_inv t"
proof (cases c)
  case (Enqueue js)
  assume inv: "orch_inv s"
  have a: "orch_inv (s\<lparr>job_queue := job_queue s @ js\<rparr>)" using inv by (rule extend_inv)
  have "\<forall>t \<in> set (pq_states (s\<lparr>job_queue := job_queue s @ js\<rparr>)). orch_inv t"
    using a by (rule pq_states_inv)
  then show ?thesis unfolding Enqueue using a by simp
next
  case (Worker_done i ok msg outp)
  assume inv: "orch_inv s"
  then show ?thesis unfolding Worker_done using done_states_inv[of s i ok msg outp] by simp
next
  case (Worker_finishes env wd i)
  assume inv: "orch_inv s"
  show ?thesis
  proof (cases "map_of (workers s) i")
    case None
    then show ?thesis unfolding Worker_finishes using inv by simp
  next
    case (Some w)
    show ?thesis
    proof (cases "completion_of env wd s w")
      case None
      then show ?thesis unfolding Worker_finishes using inv Some by simp
    next
      case c: (Some c)
      obtain ok msg outp where t: "c = (ok, msg, outp)" by (cases c)
      show ?thesis
        unfolding Worker_finishes using done_states_inv[OF inv, of "w_wid w" ok msg outp] Some c t
        by simp
    qed
  qed
next
  case (Pause_worker i)
  assume "orch_inv s"
  then show ?thesis unfolding Pause_worker by (simp add: handle_inv[of s "Pause_worker i", simplified])
next
  case (Resume_worker i)
  assume "orch_inv s"
  then show ?thesis unfolding Resume_worker by (simp add: handle_inv[of s "Resume_worker i", simplified])
next
  case (Stop_worker i)
  assume "orch_inv s"
  then show ?thesis unfolding Stop_worker by (simp add: handle_inv[of s "Stop_worker i", simplified])
next
  case Pause_all
  assume "orch_inv s"
  then show ?thesis unfolding Pause_all by (simp add: handle_inv[of s Pause_all, simplified])
next
  case Resume_all
  assume "orch_inv s"
  then show ?thesis unfolding Resume_all by (simp add: handle_inv[of s Resume_all, simplified])
next
  case Stop_all
  assume "orch_inv s"
  then show ?thesis unfolding Stop_all by (simp add: handle_inv[of s Stop_all, simplified])
qed

lemma visited_inv: "orch_inv s \<Longrightarrow> \<forall>t \<in> set (visited cs s). orch_inv t"
proof (induction cs arbitrary: s)
  case Nil
  then show ?case by simp
next
  case (Cons c cs)
  have "orch_inv (handle c s)" using Cons.prems by (rule handle_inv)
  then have "\<forall>t \<in> set (visited cs (handle c s)). orch_inv t" by (rule Cons.IH)
  moreover have "\<forall>t \<in> set (handle_states c s). orch_inv t"
    using Cons.prems by (rule handle_states_inv)
  ultimately show ?case
    using Cons.prems by (simp add: ball_Un)
qed

lemma visited_last: "handle_all cs s \<in> set (visited cs s)"
  by (induction cs arbitrary: s) simp_all

lemma handle_all_inv: "orch_inv s \<Longrightarrow> orch_inv (handle_all cs s)"
  by (induction cs arbitrary: s) (simp_all add: handle_inv)

lemma idle_inv: "workers s = [] \<Longrightarrow> 0 \<le> max_parallel s \<Longrightarrow> orch_inv s"
  by (simp add: orch_inv_def wids_def)

lemma length_removeAll_distinct:
  "distinct xs \<Longrightarrow> k \<in> set xs \<Longrightarrow> Suc (length (removeAll k xs)) = length xs"
  by (induction xs) auto

lemma refill:
  assumes inv: "orch_inv s"
    and act: "i \<in> fst ` set (workers s)"
    and full: "int (length (workers s)) = max_parallel s"
    and q: "job_queue s = r # rest"
  shows "workers (on_worker_done i ok msg outp s) =
           AList.delete i (workers s) @ [(next_wid s, Worker_init (next_wid s) r (settings s))] \<and>
         job_queue (on_worker_done i ok msg outp s) = rest \<and>
         job_store (on_worker_done i ok msg outp s) r =
           (job_store s r)\<lparr>threads := thread_count (settings s) (format (job_store s r))\<rparr>"
proof -
  let ?s1 = "worker_removed i ok msg outp s"
  have inv1: "orch_inv ?s1" using inv by (rule worker_removed_inv)
  have d: "distinct (wids s)" using inv by (simp add: orch_inv_def)
  have "i \<in> set (wids s)" using act by (simp add: wids_def)
  then have "Suc (length (wids ?s1)) = length (wids s)"
    using d by (simp add: wids_removed length_removeAll_distinct)
  then have len1: "Suc (length (workers ?s1)) = length (workers s)"
    by (simp add: length_wids)
  have q1: "job_queue ?s1 = r # rest" using q by (simp add: worker_removed_fields)
  have w1: "workers ?s1 = AList.delete i (workers s)"
    using act by (simp add: worker_removed_def Let_def)
  have can: "can_admit ?s1"
    using len1 full q1 by (simp add: can_admit_def worker_removed_fields)
  note a = admit_fresh[OF inv1 q1]
  have "\<not> can_admit (admit ?s1)"
    using len1 full unfolding a by (simp add: can_admit_def worker_removed_fields)
  then have "on_worker_done i ok msg outp s = admit ?s1"
    using can by (simp add: on_worker_done_def process_queue_admit process_queue_full)
  then show ?thesis
    unfolding a by (simp add: worker_removed_fields w1)
qed


lemma frame_format: "frame_inv h st n0 js s \<Longrightarrow> format (job_store s r) = format (h r)"
proof -
  assume "frame_inv h st n0 js s"
  then have "job_store s r = (h r)\<lparr>threads := threads (job_store s r)\<rparr>"
    unfolding frame_inv_def by blast
  then have "format (job_store s r) = format ((h r)\<lparr>threads := threads (job_store s r)\<rparr>)"
    by simp
  then show ?thesis by simp
qed

lemma frame_admit:
  assumes inv: "orch_inv s" and f: "frame_inv h st n0 js s" and can: "can_admit s"
  shows "frame_inv h st n0 js (admit s)"
proof -
  obtain r rest where q: "job_queue s = r # rest"
    using can by (auto simp: can_admit_def neq_Nil_conv)
  define n where "n = thread_count st (format (h r))"
  have st: "settings s = st" using f by (simp add: frame_inv_def)
  have fr: "\<forall>r'. job_store s r' = (h r')\<lparr>threads := threads (job_store s r')\<rparr>"
    and wr: "\<forall>p \<in> set (thread_writes s). snd p = thread_count st (format (h (fst p)))"
    and th: "\<forall>r'. threads (job_store s r') =
             (if r' \<in> fst ` set (thread_writes s) then thread_count st (format (h r'))
              else threads (h r'))"
    and wk: "\<forall>p \<in> set (workers s). w_job (snd p) \<in> fst ` set (thread_writes s)"
    and ct: "\<forall>r'. writes_to s r' + count_list (job_queue s) r' \<le> count_list js r'"
    and ln: "int (length (thread_writes s)) = next_wid s - n0"
    using f unfolding frame_inv_def by blast+
  have nn: "thread_count (settings s) (format (job_store s r)) = n"
    unfolding n_def st frame_format[OF f] ..
  have a: "admit s = s\<lparr>job_queue := rest, next_wid := next_wid s + 1,
            job_store := (job_store s)(r := (job_store s r)\<lparr>threads := n\<rparr>),
            thread_writes := thread_writes s @ [(r, n)],
            workers := workers s @ [(next_wid s, Worker_init (next_wid s) r (settings s))],
            emitted := emitted s @ [Sig_worker_started (next_wid s) (src (job_store s r))]\<rparr>"
    using admit_fresh[OF inv q] unfolding nn .
  have hr: "(job_store s r)\<lparr>threads := n\<rparr> = (h r)\<lparr>threads := n\<rparr>"
  proof -
    have "job_store s r = (h r)\<lparr>threads := threads (job_store s r)\<rparr>" using fr by blast
    then have "(job_store s r)\<lparr>threads := n\<rparr> = ((h r)\<lparr>threads := threads (job_store s r)\<rparr>)\<lparr>threads := n\<rparr>"
      by simp
    then show ?thesis by simp
  qed
  have 1: "settings (admit s) = st" unfolding a using st by simp
  have 2: "\<forall>r'. job_store (admit s) r' = (h r')\<lparr>threads := threads (job_store (admit s) r')\<rparr>"
    unfolding a using fr hr by simp
  have 3: "\<forall>p \<in> set (thread_writes (admit s)). snd p = thread_count st (format (h (fst p)))"
    unfolding a using wr by (simp add: n_def)
  have 4: "\<forall>r'. threads (job_store (admit s) r') =
             (if r' \<in> fst ` set (thread_writes (admit s)) then thread_count st (format (h r'))
              else threads (h r'))"
    unfolding a using th by (simp add: n_def)
  have 5: "\<forall>p \<in> set (workers (admit s)). w_job (snd p) \<in> fst ` set (thread_writes (admit s))"
    unfolding a using wk by (auto simp: Worker_init_def)
  have 6: "\<forall>r'. writes_to (admit s) r' + count_list (job_queue (admit s)) r' \<le> count_list js r'"
  proof
    fix r'
    have "writes_to (admit s) r' + count_list (job_queue (admit s)) r' =
          writes_to s r' + count_list (job_queue s) r'"
      unfolding a q by (simp add: writes_to_def)
    then show "writes_to (admit s) r' + count_list (job_queue (admit s)) r' \<le> count_list js r'"
      using ct by simp
  qed
  have 7: "int (length (thread_writes (admit s))) = next_wid (admit s) - n0"
    unfolding a using ln by simp
  show ?thesis unfolding frame_inv_def using 1 2 3 4 5 6 7 by blast
qed

lemma frame_process_queue:
  "orch_inv s \<Longrightarrow> frame_inv h st n0 js s \<Longrightarrow> frame_inv h st n0 js (process_queue s)"
proof (induction s rule: process_queue.induct)
  case (1 s)
  show ?case
  proof (cases "can_admit s")
    case False
    then show ?thesis using "1.prems" by (simp add: process_queue_full)
  next
    case True
    have "orch_inv (admit s)" using "1.prems"(1) True by (rule admit_inv)
    moreover have "frame_inv h st n0 js (admit s)" using "1.prems" True by (rule frame_admit)
    ultimately have "frame_inv h st n0 js (process_queue (admit s))" using "1.IH"[OF True] by blast
    then show ?thesis using True by (simp add: process_queue_admit)
  qed
qed

lemma frame_fields:
  assumes f: "frame_inv h st n0 js s"
    and e: "settings s' = settings s" "job_store s' = job_store s"
      "thread_writes s' = thread_writes s" "next_wid s' = next_wid s"
    and w: "\<forall>p \<in> set (workers s'). \<exists>q \<in> set (workers s). w_job (snd p) = w_job (snd q)"
    and c: "\<forall>r. count_list (job_queue s') r + count_list js r
                  \<le> count_list (job_queue s) r + count_list js' r"
  shows "frame_inv h st n0 js' s'"
proof -
  have st: "settings s = st"
    and fr: "\<forall>r'. job_store s r' = (h r')\<lparr>threads := threads (job_store s r')\<rparr>"
    and wr: "\<forall>p \<in> set (thread_writes s). snd p = thread_count st (format (h (fst p)))"
    and th: "\<forall>r'. threads (job_store s r') =
             (if r' \<in> fst ` set (thread_writes s) then thread_count st (format (h r'))
              else threads (h r'))"
    and wk: "\<forall>p \<in> set (workers s). w_job (snd p) \<in> fst ` set (thread_writes s)"
    and ct: "\<forall>r'. writes_to s r' + count_list (job_queue s) r' \<le> count_list js r'"
    and ln: "int (length (thread_writes s)) = next_wid s - n0"
    using f unfolding frame_inv_def by blast+
  have 5: "\<forall>p \<in> set (workers s'). w_job (snd p) \<in> fst ` set (thread_writes s)"
  proof
    fix p assume "p \<in> set (workers s')"
    then obtain q where "q \<in> set (workers s)" "w_job (snd p) = w_job (snd q)"
      using w by blast
    then show "w_job (snd p) \<in> fst ` set (thread_writes s)" using wk by simp
  qed
  have 6: "\<forall>r'. writes_to s r' + count_list (job_queue s') r' \<le> count_list js' r'"
  proof
    fix r'
    show "writes_to s r' + count_list (job_queue s') r' \<le> count_list js' r'"
      using ct[rule_format, of r'] c[rule_format, of r'] by linarith
  qed
  have ws: "writes_to s' = writes_to s" by (rule ext) (simp add: writes_to_def e)
  show ?thesis
    unfolding frame_inv_def e ws using st fr wr th 5 6 ln by blast
qed

lemma frame_extend:
  "frame_inv h st n0 js s \<Longrightarrow> frame_inv h st n0 (js @ ks) (s\<lparr>job_queue := job_queue s @ ks\<rparr>)"
  by (erule frame_fields) auto

lemma frame_workers:
  assumes "frame_inv h st n0 js s"
    and "\<forall>p \<in> set ws. \<exists>q \<in> set (workers s). w_job (snd p) = w_job (snd q)"
  shows "frame_inv h st n0 js (s\<lparr>workers := ws\<rparr>)"
  using assms(1) by (rule frame_fields) (simp_all add: assms(2))

lemma set_delete_subset: "set (AList.delete k al) \<subseteq> set al"
  by (auto simp: AList.delete_eq)

lemma frame_worker_removed:
  "frame_inv h st n0 js s \<Longrightarrow> frame_inv h st n0 js (worker_removed i ok msg outp s)"
proof -
  assume f: "frame_inv h st n0 js s"
  have "set (workers (worker_removed i ok msg outp s)) \<subseteq> set (workers s)"
    using set_delete_subset[of i "workers s"] by (simp add: worker_removed_def Let_def)
  then have "\<forall>p \<in> set (workers (worker_removed i ok msg outp s)).
      \<exists>q \<in> set (workers s). w_job (snd p) = w_job (snd q)" by blast
  then show ?thesis
    using f by (intro frame_fields[OF f]) (simp_all add: worker_removed_fields)
qed

lemma frame_on_worker_done:
  "orch_inv s \<Longrightarrow> frame_inv h st n0 js s \<Longrightarrow> frame_inv h st n0 js (on_worker_done i ok msg outp s)"
  unfolding on_worker_done_def
  by (intro frame_process_queue worker_removed_inv frame_worker_removed)

lemma frame_worker_finishes:
  "orch_inv s \<Longrightarrow> frame_inv h st n0 js s \<Longrightarrow> frame_inv h st n0 js (worker_finishes env wd i s)"
  by (simp add: worker_finishes_def frame_on_worker_done split: option.splits)

lemma w_job_flags: "w_job (pause w) = w_job w" "w_job (resume w) = w_job w" "w_job (stop w) = w_job w"
  by (simp_all add: pause_def resume_def stop_def)

lemma set_map_entry:
  "p \<in> set (AList.map_entry k f al) \<Longrightarrow> p \<in> set al \<or> (\<exists>w. (k, w) \<in> set al \<and> p = (k, f w))"
  by (induction al) (auto split: if_splits)

lemma frame_map_entry:
  assumes "frame_inv h st n0 js s" and "\<And>w. w_job (f w) = w_job w"
  shows "frame_inv h st n0 js (s\<lparr>workers := AList.map_entry k f (workers s)\<rparr>)"
proof (rule frame_workers[OF assms(1)], rule ballI)
  fix p assume "p \<in> set (AList.map_entry k f (workers s))"
  then consider "p \<in> set (workers s)" | w where "(k, w) \<in> set (workers s)" "p = (k, f w)"
    using set_map_entry by fastforce
  then show "\<exists>q \<in> set (workers s). w_job (snd p) = w_job (snd q)"
  proof cases
    case 1
    then show ?thesis by blast
  next
    case 2
    then have "w_job (snd p) = w_job (snd (k, w))" using assms(2) by simp
    then show ?thesis using 2(1) by blast
  qed
qed

lemma frame_map_all:
  assumes "frame_inv h st n0 js s" and "\<And>w. w_job (f w) = w_job w"
  shows "frame_inv h st n0 js (s\<lparr>workers := map (\<lambda>(i, w). (i, f w)) (workers s)\<rparr>)"
proof (rule frame_workers[OF assms(1)], rule ballI)
  fix p assume "p \<in> set (map (\<lambda>(i, w). (i, f w)) (workers s))"
  then obtain i w where iw: "(i, w) \<in> set (workers s)" "p = (i, f w)" by auto
  then have "w_job (snd p) = w_job (snd (i, w))" using assms(2) by simp
  then show "\<exists>q \<in> set (workers s). w_job (snd p) = w_job (snd q)" using iw(1) by blast
qed

lemma frame_stop_all: "frame_inv h st n0 js s \<Longrightarrow> frame_inv h st n0 js (stop_all s)"
  by (erule frame_fields) (simp_all add: stop_all_def)

lemma frame_handle:
  assumes "orch_inv s" and "frame_inv h st n0 js s"
  shows "frame_inv h st n0 (js @ submitted [c]) (handle c s)"
proof (cases c)
  case (Enqueue ks)
  have a: "orch_inv (s\<lparr>job_queue := job_queue s @ ks\<rparr>)" using assms(1) by (rule extend_inv)
  have "frame_inv h st n0 (js @ ks) (s\<lparr>job_queue := job_queue s @ ks\<rparr>)"
    using assms(2) by (rule frame_extend)
  then have "frame_inv h st n0 (js @ ks) (process_queue (s\<lparr>job_queue := job_queue s @ ks\<rparr>))"
    using a by (intro frame_process_queue)
  then show ?thesis unfolding Enqueue by (simp add: enqueue_def)
next
  case (Worker_done i ok msg outp)
  show ?thesis unfolding Worker_done using assms by (simp add: frame_on_worker_done)
next
  case (Worker_finishes env wd i)
  show ?thesis unfolding Worker_finishes using assms by (simp add: frame_worker_finishes)
next
  case (Pause_worker i)
  show ?thesis unfolding Pause_worker
    using frame_map_entry[OF assms(2), of pause i] by (simp add: pause_worker_def w_job_flags)
next
  case (Resume_worker i)
  show ?thesis unfolding Resume_worker
    using frame_map_entry[OF assms(2), of resume i] by (simp add: resume_worker_def w_job_flags)
next
  case (Stop_worker i)
  show ?thesis unfolding Stop_worker
    using frame_map_entry[OF assms(2), of stop i] by (simp add: stop_worker_def w_job_flags)
next
  case Pause_all
  show ?thesis unfolding Pause_all
    using frame_map_all[OF assms(2), of pause] by (simp add: pause_all_def w_job_flags)
next
  case Resume_all
  show ?thesis unfolding Resume_all
    using frame_map_all[OF assms(2), of resume] by (simp add: resume_all_def w_job_flags)
next
  case Stop_all
  show ?thesis unfolding Stop_all
    using assms(2) by (simp add: frame_stop_all)
qed

lemma submitted_Cons: "submitted (c # cs) = submitted [c] @ submitted cs"
  by (cases c) simp_all

lemma frame_handle_all:
  "orch_inv s \<Longrightarrow> frame_inv h st n0 js s \<Longrightarrow> frame_inv h st n0 (js @ submitted cs) (handle_all cs s)"
proof (induction cs arbitrary: s js)
  case Nil
  then show ?case by simp
next
  case (Cons c cs)
  have "orch_inv (handle c s)" using Cons.prems(1) by (rule handle_inv)
  moreover have "frame_inv h st n0 (js @ submitted [c]) (handle c s)"
    using Cons.prems by (rule frame_handle)
  ultimately have "frame_inv h st n0 ((js @ submitted [c]) @ submitted cs) (handle_all cs (handle c s))"
    by (rule Cons.IH)
  then show ?case by (simp add: submitted_Cons[of c cs])
qed

lemma frame_idle:
  "workers s = [] \<Longrightarrow> job_queue s = [] \<Longrightarrow> thread_writes s = [] \<Longrightarrow>
     frame_inv (job_store s) (settings s) (next_wid s) [] s"
  by (simp add: frame_inv_def writes_to_def)

lemma store_admit:
  "\<exists>n. job_store (admit s) r = (job_store s r)\<lparr>threads := n\<rparr>"
proof (cases "job_queue s")
  case Nil
  have "job_store (admit s) r = (job_store s r)\<lparr>threads := threads (job_store s r)\<rparr>"
    using Nil by (simp add: admit_def)
  then show ?thesis ..
next
  case (Cons q qs)
  show ?thesis
  proof (cases "r = q")
    case True
    have "job_store (admit s) r
          = (job_store s r)\<lparr>threads := thread_count (settings s) (format (job_store s q))\<rparr>"
      using Cons True by (simp add: admit_def Let_def)
    then show ?thesis ..
  next
    case False
    have "job_store (admit s) r = (job_store s r)\<lparr>threads := threads (job_store s r)\<rparr>"
      using Cons False by (simp add: admit_def Let_def)
    then show ?thesis ..
  qed
qed

lemma store_frame_step:
  assumes "store_frame h s"
    and "\<forall>r. \<exists>n. job_store t r = (job_store s r)\<lparr>threads := n\<rparr>"
  shows "store_frame h t"
  unfolding store_frame_def
proof
  fix r
  obtain m where a: "job_store s r = (h r)\<lparr>threads := m\<rparr>"
    using assms(1) unfolding store_frame_def by blast
  obtain n where b: "job_store t r = (job_store s r)\<lparr>threads := n\<rparr>"
    using assms(2) by blast
  have "job_store t r = (h r)\<lparr>threads := n\<rparr>"
    unfolding b a by simp
  then show "\<exists>n. job_store t r = (h r)\<lparr>threads := n\<rparr>" ..
qed

lemma store_frame_threads:
  "store_frame h s \<Longrightarrow> job_store s r = (h r)\<lparr>threads := threads (job_store s r)\<rparr>"
proof -
  assume "store_frame h s"
  then obtain n where a: "job_store s r = (h r)\<lparr>threads := n\<rparr>"
    unfolding store_frame_def by blast
  show ?thesis unfolding a by simp
qed

lemma store_frame_same: "store_frame h s \<Longrightarrow> job_store t = job_store s \<Longrightarrow> store_frame h t"
  by (simp add: store_frame_def)

lemma store_frame_admit: "store_frame h s \<Longrightarrow> store_frame h (admit s)"
  by (erule store_frame_step) (simp add: store_admit)

lemma store_frame_pq_states: "store_frame h s \<Longrightarrow> \<forall>t \<in> set (pq_states s). store_frame h t"
proof (induction s rule: pq_states.induct)
  case (1 s)
  show ?case
  proof (cases "can_admit s")
    case True
    have a: "store_frame h (admit s)" using 1(2) by (rule store_frame_admit)
    have "\<forall>t \<in> set (pq_states (admit s)). store_frame h t" using True a by (rule 1(1))
    then show ?thesis using a True by (subst pq_states.simps) simp
  next
    case False
    then show ?thesis by (subst pq_states.simps) simp
  qed
qed

lemma store_frame_process_queue: "store_frame h s \<Longrightarrow> store_frame h (process_queue s)"
proof -
  assume f: "store_frame h s"
  have "last (s # pq_states s) \<in> set (s # pq_states s)" by (rule last_in_set) simp
  then show ?thesis using f store_frame_pq_states[OF f] unfolding last_pq_states by auto
qed

lemma store_frame_done_states:
  "store_frame h s \<Longrightarrow> \<forall>t \<in> set (done_states i ok msg outp s). store_frame h t"
proof -
  assume f: "store_frame h s"
  have a: "store_frame h (worker_removed i ok msg outp s)"
    using f by (rule store_frame_same) (simp add: worker_removed_fields)
  then show ?thesis using store_frame_pq_states[OF a] by (simp add: done_states_def)
qed

lemma store_frame_on_worker_done: "store_frame h s \<Longrightarrow> store_frame h (on_worker_done i ok msg outp s)"
proof -
  assume f: "store_frame h s"
  have "store_frame h (worker_removed i ok msg outp s)"
    using f by (rule store_frame_same) (simp add: worker_removed_fields)
  then show ?thesis unfolding on_worker_done_def by (rule store_frame_process_queue)
qed

lemma store_frame_handle: "store_frame h s \<Longrightarrow> store_frame h (handle c s)"
proof (cases c)
  case (Enqueue js)
  assume f: "store_frame h s"
  have "store_frame h (s\<lparr>job_queue := job_queue s @ js\<rparr>)"
    using f by (rule store_frame_same) simp
  then show ?thesis unfolding Enqueue by (simp add: enqueue_def store_frame_process_queue)
next
  case (Worker_done i ok msg outp)
  assume "store_frame h s"
  then show ?thesis unfolding Worker_done by (simp add: store_frame_on_worker_done)
next
  case (Worker_finishes env wd i)
  assume "store_frame h s"
  then show ?thesis unfolding Worker_finishes
    by (simp add: worker_finishes_def store_frame_on_worker_done split: option.splits)
qed (simp_all add: store_frame_def pause_worker_def resume_worker_def stop_worker_def
       pause_all_def resume_all_def stop_all_def)

lemma store_frame_handle_states:
  "store_frame h s \<Longrightarrow> \<forall>t \<in> set (handle_states c s). store_frame h t"
proof (cases c)
  case (Enqueue js)
  assume f: "store_frame h s"
  have a: "store_frame h (s\<lparr>job_queue := job_queue s @ js\<rparr>)"
    using f by (rule store_frame_same) simp
  then show ?thesis unfolding Enqueue using store_frame_pq_states[OF a] by simp
next
  case (Worker_done i ok msg outp)
  assume "store_frame h s"
  then show ?thesis unfolding Worker_done using store_frame_done_states by simp
next
  case (Worker_finishes env wd i)
  assume f: "store_frame h s"
  show ?thesis
  proof (cases "map_of (workers s) i")
    case None
    then show ?thesis unfolding Worker_finishes using f by simp
  next
    case (Some w)
    show ?thesis
    proof (cases "completion_of env wd s w")
      case None
      then show ?thesis unfolding Worker_finishes using f Some by simp
    next
      case c: (Some c)
      obtain ok msg outp where t: "c = (ok, msg, outp)" by (cases c)
      show ?thesis
        unfolding Worker_finishes using store_frame_done_states[OF f, of "w_wid w" ok msg outp] Some c t
        by simp
    qed
  qed
next
  case (Pause_worker i)
  assume "store_frame h s"
  then show ?thesis unfolding Pause_worker by (simp add: store_frame_def pause_worker_def)
next
  case (Resume_worker i)
  assume "store_frame h s"
  then show ?thesis unfolding Resume_worker by (simp add: store_frame_def resume_worker_def)
next
  case (Stop_worker i)
  assume "store_frame h s"
  then show ?thesis unfolding Stop_worker by (simp add: store_frame_def stop_worker_def)
next
  case Pause_all
  assume "store_frame h s"
  then show ?thesis unfolding Pause_all by (simp add: store_frame_def pause_all_def)
next
  case Resume_all
  assume "store_frame h s"
  then show ?thesis unfolding Resume_all by (simp add: store_frame_def resume_all_def)
next
  case Stop_all
  assume "store_frame h s"
  then show ?thesis unfolding Stop_all by (simp add: store_frame_def stop_all_def)
qed

lemma store_frame_visited: "store_frame h s \<Longrightarrow> \<forall>t \<in> set (visited cs s). store_frame h t"
proof (induction cs arbitrary: s)
  case Nil
  then show ?case by simp
next
  case (Cons c cs)
  have "store_frame h (handle c s)" using Cons.prems by (rule store_frame_handle)
  then have "\<forall>t \<in> set (visited cs (handle c s)). store_frame h t" by (rule Cons.IH)
  moreover have "\<forall>t \<in> set (handle_states c s). store_frame h t"
    using Cons.prems by (rule store_frame_handle_states)
  ultimately show ?case using Cons.prems by (simp add: ball_Un)
qed

lemma store_frame_refl: "store_frame (job_store s) s"
  unfolding store_frame_def
proof
  fix r
  have "job_store s r = (job_store s r)\<lparr>threads := threads (job_store s r)\<rparr>" by simp
  then show "\<exists>n. job_store s r = (job_store s r)\<lparr>threads := n\<rparr>" ..
qed


lemma demo_orch_fields:
  "workers demo_orch = []" "job_queue demo_orch = []" "thread_writes demo_orch = []"
  "max_parallel demo_orch = 2" "settings demo_orch = demo_settings" "next_wid demo_orch = 1"
  "job_store demo_orch = demo_store"
  by (simp_all add: demo_orch_def set_settings_def Orchestrator_init_def demo_settings_def)

lemma demo_counts:
  "thread_count demo_settings (format (demo_store 7)) = 4"
  "thread_count demo_settings (format (demo_store 8)) = 2"
  "thread_count demo_settings (format (demo_store 9)) = 1"
  by (simp_all add: thread_count_def demo_settings_def demo_store_def Job_init_def)

lemma demo_run:
  "workers (enqueue [7, 8, 9] demo_orch) =
     [(1, Worker_init 1 7 demo_settings), (2, Worker_init 2 8 demo_settings)]"
  "job_queue (enqueue [7, 8, 9] demo_orch) = [9]"
  "max_parallel (enqueue [7, 8, 9] demo_orch) = 2"
  "next_wid (enqueue [7, 8, 9] demo_orch) = 3"
  "settings (enqueue [7, 8, 9] demo_orch) = demo_settings"
  "thread_writes (enqueue [7, 8, 9] demo_orch) = [(7, 4), (8, 2)]"
  "job_store (enqueue [7, 8, 9] demo_orch) 7 = (demo_store 7)\<lparr>threads := 4\<rparr>"
  "job_store (enqueue [7, 8, 9] demo_orch) 9 = demo_store 9"
  by (simp_all add: enqueue_def process_queue_admit process_queue_full can_admit_def admit_def
        Let_def demo_orch_fields demo_counts)

lemma count_admit:
  "writes_to (admit s) r + count_list (job_queue (admit s)) r =
     writes_to s r + count_list (job_queue s) r"
  by (cases "job_queue s") (simp_all add: admit_def Let_def writes_to_def)

lemma count_process_queue:
  "writes_to (process_queue s) r + count_list (job_queue (process_queue s)) r =
     writes_to s r + count_list (job_queue s) r"
proof (induction s rule: process_queue.induct)
  case (1 s)
  show ?case
  proof (cases "can_admit s")
    case True
    have "writes_to (process_queue (admit s)) r + count_list (job_queue (process_queue (admit s))) r =
          writes_to (admit s) r + count_list (job_queue (admit s)) r"
      using True by (rule 1)
    then show ?thesis using True by (simp add: process_queue_admit count_admit)
  next
    case False
    then show ?thesis by (simp add: process_queue_full)
  qed
qed

lemma count_on_worker_done:
  "writes_to (on_worker_done i ok msg outp s) r + count_list (job_queue (on_worker_done i ok msg outp s)) r =
     writes_to s r + count_list (job_queue s) r"
  unfolding on_worker_done_def count_process_queue
  by (simp add: writes_to_def worker_removed_fields)

lemma count_handle:
  "c \<noteq> Stop_all \<Longrightarrow>
     writes_to (handle c s) r + count_list (job_queue (handle c s)) r =
       writes_to s r + count_list (job_queue s) r + count_list (submitted [c]) r"
proof (cases c)
  case (Enqueue js)
  show ?thesis unfolding Enqueue
    by (simp add: enqueue_def count_process_queue) (simp add: writes_to_def)
next
  case (Worker_done i ok msg outp)
  show ?thesis unfolding Worker_done by (simp add: count_on_worker_done)
next
  case (Worker_finishes env wd i)
  show ?thesis unfolding Worker_finishes
    by (simp add: worker_finishes_def count_on_worker_done split: option.splits)
qed (simp_all add: writes_to_def pause_worker_def resume_worker_def stop_worker_def
       pause_all_def resume_all_def)

lemma count_handle_all:
  "Stop_all \<notin> set cs \<Longrightarrow>
     writes_to (handle_all cs s) r + count_list (job_queue (handle_all cs s)) r =
       writes_to s r + count_list (job_queue s) r + count_list (submitted cs) r"
proof (induction cs arbitrary: s)
  case Nil
  then show ?case by simp
next
  case (Cons c cs)
  have c: "c \<noteq> Stop_all" and cs: "Stop_all \<notin> set cs" using Cons.prems by auto
  have "writes_to (handle_all cs (handle c s)) r + count_list (job_queue (handle_all cs (handle c s))) r =
        writes_to (handle c s) r + count_list (job_queue (handle c s)) r + count_list (submitted cs) r"
    using cs by (rule Cons.IH)
  then show ?case
    using count_handle[OF c, of s r] by (simp add: submitted_Cons[of c cs])
qed


section \<open>Lemmas about paths and the rename loop\<close>




















subsection \<open>The encoder invocations of a run\<close>


















lemma null_sink_is_null: "is_null_sink (null_sink env)"
  by (simp add: is_null_sink_def null_sink_def)









subsection \<open>The files a run removes\<close>














subsection \<open>The concrete orchestrator runs\<close>

lemma single_slot_fields:
  "workers single_slot_orch = []" "job_queue single_slot_orch = []"
  "thread_writes single_slot_orch = []"
  "max_parallel single_slot_orch = 1" "settings single_slot_orch = demo_settings"
  "next_wid single_slot_orch = 1" "job_store single_slot_orch = demo_store"
  by (simp_all add: single_slot_orch_def demo_orch_fields)

lemma demo_twice:
  "thread_writes (enqueue [7, 7] demo_orch) = [(7, 4), (7, 4)]"
  "job_queue (enqueue [7, 7] demo_orch) = []"
  by (simp_all add: enqueue_def process_queue_admit process_queue_full can_admit_def admit_def
        Let_def demo_orch_fields demo_counts)

lemma single_slot_twice:
  "workers (enqueue [7, 7] single_slot_orch) = [(1, Worker_init 1 7 demo_settings)]"
  "job_queue (enqueue [7, 7] single_slot_orch) = [7]"
  "thread_writes (enqueue [7, 7] single_slot_orch) = [(7, 4)]"
  "job_store (enqueue [7, 7] single_slot_orch) 7 = (demo_store 7)\<lparr>threads := 4\<rparr>"
  by (simp_all add: enqueue_def process_queue_admit process_queue_full can_admit_def admit_def
        Let_def single_slot_fields demo_counts)

lemma demo_threads: "threads (demo_store 7) = 1"
  by (simp add: demo_store_def Job_init_def)

lemma demo_completion:
  "completions (Worker_run demo_env failing_world 1 ((demo_store 7)\<lparr>threads := 4\<rparr>) demo_settings) =
     [(False, ''Conversion failed with exit code 1'', [])]"
  by code_simp

lemma demo_finish_eq:
  "worker_finishes demo_env failing_world 1 (enqueue [7, 8, 9] demo_orch) =
     on_worker_done 1 False ''Conversion failed with exit code 1'' [] (enqueue [7, 8, 9] demo_orch)"
  by (simp add: worker_finishes_def completion_of_def demo_run Worker_init_def demo_completion)

lemma demo_finish:
  "workers (worker_finishes demo_env failing_world 1 (enqueue [7, 8, 9] demo_orch)) =
     [(2, Worker_init 2 8 demo_settings), (3, Worker_init 3 9 demo_settings)]"
  "job_queue (worker_finishes demo_env failing_world 1 (enqueue [7, 8, 9] demo_orch)) = []"
  "next_wid (worker_finishes demo_env failing_world 1 (enqueue [7, 8, 9] demo_orch)) = 4"
  "thread_writes (worker_finishes demo_env failing_world 1 (enqueue [7, 8, 9] demo_orch)) =
     [(7, 4), (8, 2), (9, 1)]"
  "job_store (worker_finishes demo_env failing_world 1 (enqueue [7, 8, 9] demo_orch)) 7 =
     (demo_store 7)\<lparr>threads := 4\<rparr>"
  "job_store (worker_finishes demo_env failing_world 1 (enqueue [7, 8, 9] demo_orch)) 9 =
     (demo_store 9)\<lparr>threads := 1\<rparr>"
  unfolding demo_finish_eq
  by (simp_all add: on_worker_done_def worker_removed_def Let_def demo_run
        process_queue_admit process_queue_full can_admit_def admit_def demo_counts)

section \<open>The claims\<close>

text \<open>
  Claim C1. Starting from an orchestrator with no active worker and a non-negative bound,
  for every sequence of calls (submissions of any size, completions of any worker id in any
  order, runs of active workers to their terminal event, pause, resume and stop requests)
  the number of active workers is at most \<open>max_parallel\<close> in every state the orchestrator
  passes through, also inside the admission loop; the admission loop changes nothing when
  the active count is not below the bound; and when a worker of a full orchestrator
  completes while jobs are pending, exactly the head of the pending queue is admitted into
  the freed slot, under the next worker id, its thread count set from the settings.
\<close>

theorem orchestrator_bound:
  assumes "workers s0 = []" and "0 \<le> max_parallel s0"
  shows "(\<forall>t \<in> set (visited cs s0). int (length (workers t)) \<le> max_parallel t) \<and>
         (\<forall>t::Orchestrator. \<not> int (length (workers t)) < max_parallel t \<longrightarrow> process_queue t = t) \<and>
         (\<forall>i ok msg outp r rest.
            i \<in> fst ` set (workers (handle_all cs s0)) \<and>
            int (length (workers (handle_all cs s0))) = max_parallel (handle_all cs s0) \<and>
            job_queue (handle_all cs s0) = r # rest \<longrightarrow>
            workers (on_worker_done i ok msg outp (handle_all cs s0)) =
              AList.delete i (workers (handle_all cs s0)) @
                [(next_wid (handle_all cs s0),
                  Worker_init (next_wid (handle_all cs s0)) r (settings (handle_all cs s0)))] \<and>
            job_queue (on_worker_done i ok msg outp (handle_all cs s0)) = rest \<and>
            job_store (on_worker_done i ok msg outp (handle_all cs s0)) r =
              (job_store (handle_all cs s0) r)
                \<lparr>threads := thread_count (settings (handle_all cs s0))
                               (format (job_store (handle_all cs s0) r))\<rparr>)"
proof (intro conjI allI impI ballI)
  have inv0: "orch_inv s0" using assms by (rule idle_inv)
  fix t assume "t \<in> set (visited cs s0)"
  then have "orch_inv t" using visited_inv[OF inv0, of cs] by blast
  then show "int (length (workers t)) \<le> max_parallel t"
    by (simp add: orch_inv_def length_wids)
next
  fix t :: Orchestrator assume "\<not> int (length (workers t)) < max_parallel t"
  then show "process_queue t = t"
    by (simp add: process_queue_full can_admit_def)
next
  have inv0: "orch_inv s0" using assms by (rule idle_inv)
  have inv: "orch_inv (handle_all cs s0)" using inv0 by (rule handle_all_inv)
  fix i ok msg outp r rest
  assume h: "i \<in> fst ` set (workers (handle_all cs s0)) \<and>
            int (length (workers (handle_all cs s0))) = max_parallel (handle_all cs s0) \<and>
            job_queue (handle_all cs s0) = r # rest"
  have a: "i \<in> fst ` set (workers (handle_all cs s0))"
    and b: "int (length (workers (handle_all cs s0))) = max_parallel (handle_all cs s0)"
    and c: "job_queue (handle_all cs s0) = r # rest"
    using h by blast+
  note R = refill[OF inv a b c, of ok msg outp]
  from R show "workers (on_worker_done i ok msg outp (handle_all cs s0)) =
              AList.delete i (workers (handle_all cs s0)) @
                [(next_wid (handle_all cs s0),
                  Worker_init (next_wid (handle_all cs s0)) r (settings (handle_all cs s0)))]"
    by (rule conjunct1)
  from R show "job_queue (on_worker_done i ok msg outp (handle_all cs s0)) = rest"
    by blast
  from R show "job_store (on_worker_done i ok msg outp (handle_all cs s0)) r =
              (job_store (handle_all cs s0) r)
                \<lparr>threads := thread_count (settings (handle_all cs s0))
                               (format (job_store (handle_all cs s0) r))\<rparr>"
    by blast
qed

theorem orchestrator_bound_witness:
  "workers demo_orch = [] \<and> 0 \<le> max_parallel demo_orch \<and>
   handle_all [Enqueue [7, 8, 9]] demo_orch \<in> set (visited [Enqueue [7, 8, 9]] demo_orch) \<and>
   int (length (workers (handle_all [Enqueue [7, 8, 9]] demo_orch)))
     \<le> max_parallel (handle_all [Enqueue [7, 8, 9]] demo_orch) \<and>
   \<not> int (length (workers (handle_all [Enqueue [7, 8, 9]] demo_orch)))
       < max_parallel (handle_all [Enqueue [7, 8, 9]] demo_orch) \<and>
   process_queue (handle_all [Enqueue [7, 8, 9]] demo_orch) = handle_all [Enqueue [7, 8, 9]] demo_orch \<and>
   1 \<in> fst ` set (workers (handle_all [Enqueue [7, 8, 9]] demo_orch)) \<and>
   job_queue (handle_all [Enqueue [7, 8, 9]] demo_orch) = [9] \<and>
   workers (on_worker_done 1 False ''failed'' [] (handle_all [Enqueue [7, 8, 9]] demo_orch)) =
     [(2, Worker_init 2 8 demo_settings), (3, Worker_init 3 9 demo_settings)] \<and>
   job_queue (on_worker_done 1 False ''failed'' [] (handle_all [Enqueue [7, 8, 9]] demo_orch)) = [] \<and>
   job_store (on_worker_done 1 False ''failed'' [] (handle_all [Enqueue [7, 8, 9]] demo_orch)) 9 =
     (demo_store 9)\<lparr>threads := 1\<rparr>"
proof -
  let ?S = "handle_all [Enqueue [7, 8, 9]] demo_orch"
  have h1: "workers demo_orch = []" and h2: "0 \<le> max_parallel demo_orch"
    by (simp_all add: demo_orch_fields)
  note T = orchestrator_bound[OF h1 h2, of "[Enqueue [7, 8, 9]]"]
  have m: "?S \<in> set (visited [Enqueue [7, 8, 9]] demo_orch)"
    by (rule visited_last)
  have "\<forall>t \<in> set (visited [Enqueue [7, 8, 9]] demo_orch). int (length (workers t)) \<le> max_parallel t"
    using T by (rule conjunct1)
  then have a: "int (length (workers ?S)) \<le> max_parallel ?S"
    using m by (rule bspec)
  have full: "\<not> int (length (workers ?S)) < max_parallel ?S"
    by (simp add: demo_run)
  have b: "process_queue ?S = ?S"
    using T full by blast
  have p1: "1 \<in> fst ` set (workers ?S)" by (simp add: demo_run)
  have p2: "int (length (workers ?S)) = max_parallel ?S" by (simp add: demo_run)
  have p3: "job_queue ?S = [9]" by (simp add: demo_run)
  have c: "workers (on_worker_done 1 False ''failed'' [] ?S) =
              AList.delete 1 (workers ?S) @
                [(next_wid ?S, Worker_init (next_wid ?S) 9 (settings ?S))] \<and>
            job_queue (on_worker_done 1 False ''failed'' [] ?S) = [] \<and>
            job_store (on_worker_done 1 False ''failed'' [] ?S) 9 =
              (job_store ?S 9)\<lparr>threads := thread_count (settings ?S) (format (job_store ?S 9))\<rparr>"
    using T p1 p2 p3 by blast
  have w: "workers (on_worker_done 1 False ''failed'' [] ?S) =
     [(2, Worker_init 2 8 demo_settings), (3, Worker_init 3 9 demo_settings)]"
    using c by (simp add: demo_run)
  have q: "job_queue (on_worker_done 1 False ''failed'' [] ?S) = []"
    using c by blast
  have st: "job_store (on_worker_done 1 False ''failed'' [] ?S) 9 = (demo_store 9)\<lparr>threads := 1\<rparr>"
    using c by (simp add: demo_run demo_counts)
  show ?thesis
    using h1 h2 m a full b p1 p3 w q st by (intro conjI)
qed

text \<open>
  Claim C9, as the code has it. The pending queue and the workers hold references to the
  caller's job objects, and line 547 assigns \<^verbatim>\<open>job.threads\<close> on the object itself;
  \<^verbatim>\<open>Worker.run\<close> reads the attributes of its job, passes them on as values, and assigns
  to none of them. From an idle orchestrator and for every sequence of calls (submissions,
  completion signals, runs of active workers to their terminal event, pause, resume and
  stop requests):
  in every state passed through, also inside the admission loop, every job object differs
  from what it was at the start in no field other than \<open>threads\<close>;
  every assignment sets \<open>threads\<close> to the count the settings give for the object's format,
  1 when they give none;
  \<open>threads\<close> of an object is that count once the object was assigned, and its original
  value before;
  the object of every active worker was assigned;
  the assignments to an object and its pending occurrences together never exceed the
  number of times it was submitted, and are equal to it as long as \<^verbatim>\<open>stop_all\<close>, which
  clears the pending queue, was not called: every submission of an object is then either
  still pending or has led to exactly one assignment;
  an object submitted once that an active worker holds was assigned exactly once and is
  no longer pending;
  and there is one assignment for each admission.
  The settings are those of the start: \<^verbatim>\<open>set_settings\<close> is not among the calls.
\<close>

theorem job_frame:
  assumes "workers s0 = []" and "job_queue s0 = []" and "thread_writes s0 = []"
    and "0 \<le> max_parallel s0"
  shows "(\<forall>t \<in> set (visited cs s0). \<forall>r.
            job_store t r = (job_store s0 r)\<lparr>threads := threads (job_store t r)\<rparr>) \<and>
         (\<forall>p \<in> set (thread_writes (handle_all cs s0)).
            snd p = thread_count (settings s0) (format (job_store s0 (fst p)))) \<and>
         (\<forall>r. threads (job_store (handle_all cs s0) r) =
            (if r \<in> fst ` set (thread_writes (handle_all cs s0))
             then thread_count (settings s0) (format (job_store s0 r))
             else threads (job_store s0 r))) \<and>
         (\<forall>p \<in> set (workers (handle_all cs s0)).
            w_job (snd p) \<in> fst ` set (thread_writes (handle_all cs s0))) \<and>
         (\<forall>r. writes_to (handle_all cs s0) r + count_list (job_queue (handle_all cs s0)) r
                \<le> count_list (submitted cs) r) \<and>
         (Stop_all \<notin> set cs \<longrightarrow>
            (\<forall>r. writes_to (handle_all cs s0) r + count_list (job_queue (handle_all cs s0)) r
                   = count_list (submitted cs) r)) \<and>
         (\<forall>p \<in> set (workers (handle_all cs s0)).
            count_list (submitted cs) (w_job (snd p)) = 1 \<longrightarrow>
            writes_to (handle_all cs s0) (w_job (snd p)) = 1 \<and>
            w_job (snd p) \<notin> set (job_queue (handle_all cs s0))) \<and>
         int (length (thread_writes (handle_all cs s0))) = next_wid (handle_all cs s0) - next_wid s0"
proof -
  let ?s = "handle_all cs s0"
  have i: "orch_inv s0" using assms(1,4) by (rule idle_inv)
  have "frame_inv (job_store s0) (settings s0) (next_wid s0) [] s0"
    using assms(1-3) by (rule frame_idle)
  with i have "frame_inv (job_store s0) (settings s0) (next_wid s0) ([] @ submitted cs) ?s"
    by (rule frame_handle_all)
  then have f: "frame_inv (job_store s0) (settings s0) (next_wid s0) (submitted cs) ?s" by simp
  have wr: "\<forall>p \<in> set (thread_writes ?s).
              snd p = thread_count (settings s0) (format (job_store s0 (fst p)))"
    and th: "\<forall>r. threads (job_store ?s r) =
             (if r \<in> fst ` set (thread_writes ?s)
              then thread_count (settings s0) (format (job_store s0 r))
              else threads (job_store s0 r))"
    and wk: "\<forall>p \<in> set (workers ?s). w_job (snd p) \<in> fst ` set (thread_writes ?s)"
    and ct: "\<forall>r. writes_to ?s r + count_list (job_queue ?s) r \<le> count_list (submitted cs) r"
    and ln: "int (length (thread_writes ?s)) = next_wid ?s - next_wid s0"
    using f unfolding frame_inv_def by blast+
  have v: "\<forall>t \<in> set (visited cs s0). \<forall>r.
            job_store t r = (job_store s0 r)\<lparr>threads := threads (job_store t r)\<rparr>"
  proof (intro ballI allI)
    fix t r assume "t \<in> set (visited cs s0)"
    then have "store_frame (job_store s0) t"
      using store_frame_visited[OF store_frame_refl, of cs s0] by blast
    then show "job_store t r = (job_store s0 r)\<lparr>threads := threads (job_store t r)\<rparr>"
      by (rule store_frame_threads)
  qed
  have once: "\<forall>p \<in> set (workers ?s).
            count_list (submitted cs) (w_job (snd p)) = 1 \<longrightarrow>
            writes_to ?s (w_job (snd p)) = 1 \<and> w_job (snd p) \<notin> set (job_queue ?s)"
  proof (intro ballI impI)
    fix p assume p: "p \<in> set (workers ?s)" and c: "count_list (submitted cs) (w_job (snd p)) = 1"
    let ?r = "w_job (snd p)"
    have "?r \<in> set (map fst (thread_writes ?s))" using wk p by simp
    then have "count_list (map fst (thread_writes ?s)) ?r \<noteq> 0"
      unfolding count_list_0_iff by blast
    then have a: "1 \<le> writes_to ?s ?r" by (simp add: writes_to_def)
    have b: "writes_to ?s ?r + count_list (job_queue ?s) ?r \<le> 1" using ct c by metis
    have "writes_to ?s ?r = 1" and "count_list (job_queue ?s) ?r = 0" using a b by linarith+
    then show "writes_to ?s ?r = 1 \<and> ?r \<notin> set (job_queue ?s)"
      by (simp add: count_list_0_iff)
  qed
  have z: "writes_to s0 r + count_list (job_queue s0) r = 0" for r
    using assms(2,3) by (simp add: writes_to_def)
  have eq: "Stop_all \<notin> set cs \<longrightarrow>
            (\<forall>r. writes_to ?s r + count_list (job_queue ?s) r = count_list (submitted cs) r)"
  proof (intro impI allI)
    fix r assume "Stop_all \<notin> set cs"
    then have "writes_to ?s r + count_list (job_queue ?s) r =
               writes_to s0 r + count_list (job_queue s0) r + count_list (submitted cs) r"
      by (rule count_handle_all)
    then show "writes_to ?s r + count_list (job_queue ?s) r = count_list (submitted cs) r"
      using z[of r] by simp
  qed
  from v wr th wk ct eq once ln show ?thesis by blast
qed

theorem job_frame_witness:
  "workers demo_orch = [] \<and> job_queue demo_orch = [] \<and> thread_writes demo_orch = [] \<and>
   0 \<le> max_parallel demo_orch \<and>
   submitted [Enqueue [7, 8, 9], Worker_finishes demo_env failing_world 1] = [7, 8, 9] \<and>
   completions (Worker_run demo_env failing_world 1 ((demo_store 7)\<lparr>threads := 4\<rparr>) demo_settings) =
     [(False, ''Conversion failed with exit code 1'', [])] \<and>
   job_store (handle_all [Enqueue [7, 8, 9], Worker_finishes demo_env failing_world 1] demo_orch) 7 =
     (job_store demo_orch 7)\<lparr>threads := 4\<rparr> \<and>
   job_store (handle_all [Enqueue [7, 8, 9], Worker_finishes demo_env failing_world 1] demo_orch) 9 =
     (job_store demo_orch 9)\<lparr>threads := 1\<rparr> \<and>
   thread_writes (handle_all [Enqueue [7, 8, 9], Worker_finishes demo_env failing_world 1] demo_orch) =
     [(7, 4), (8, 2), (9, 1)] \<and>
   Stop_all \<notin> set [Enqueue [7, 8, 9], Worker_finishes demo_env failing_world 1] \<and>
   writes_to (handle_all [Enqueue [7, 8, 9], Worker_finishes demo_env failing_world 1] demo_orch) 7 +
     count_list (job_queue (handle_all [Enqueue [7, 8, 9], Worker_finishes demo_env failing_world 1]
                              demo_orch)) 7 = 1 \<and>
   (\<exists>p \<in> set (workers (handle_all [Enqueue [7, 8, 9], Worker_finishes demo_env failing_world 1]
                          demo_orch)).
      w_job (snd p) = 9 \<and>
      writes_to (handle_all [Enqueue [7, 8, 9], Worker_finishes demo_env failing_world 1] demo_orch)
        (w_job (snd p)) = 1 \<and>
      w_job (snd p) \<notin> set (job_queue (handle_all [Enqueue [7, 8, 9],
                                 Worker_finishes demo_env failing_world 1] demo_orch))) \<and>
   int (length (thread_writes (handle_all [Enqueue [7, 8, 9],
          Worker_finishes demo_env failing_world 1] demo_orch))) =
     next_wid (handle_all [Enqueue [7, 8, 9], Worker_finishes demo_env failing_world 1] demo_orch)
       - next_wid demo_orch"
proof -
  let ?cs = "[Enqueue [7, 8, 9], Worker_finishes demo_env failing_world 1]"
  let ?S = "handle_all ?cs demo_orch"
  have h1: "workers demo_orch = []" and h2: "job_queue demo_orch = []"
    and h3: "thread_writes demo_orch = []" and h4: "0 \<le> max_parallel demo_orch"
    by (simp_all add: demo_orch_fields)
  note T = job_frame[OF h1 h2 h3 h4, of ?cs]
  have S: "?S = worker_finishes demo_env failing_world 1 (enqueue [7, 8, 9] demo_orch)"
    by simp
  have sub: "submitted ?cs = [7, 8, 9]" by simp
  have s7: "job_store ?S 7 = (job_store demo_orch 7)\<lparr>threads := 4\<rparr>"
    and s9: "job_store ?S 9 = (job_store demo_orch 9)\<lparr>threads := 1\<rparr>"
    and tw: "thread_writes ?S = [(7, 4), (8, 2), (9, 1)]"
    unfolding S by (simp_all add: demo_finish demo_orch_fields)
  have m: "(3, Worker_init 3 9 demo_settings) \<in> set (workers ?S)"
    unfolding S by (simp add: demo_finish)
  have j: "w_job (snd (3::int, Worker_init 3 9 demo_settings)) = 9"
    by (simp add: Worker_init_def)
  have c: "count_list (submitted ?cs) (w_job (snd (3::int, Worker_init 3 9 demo_settings))) = 1"
    unfolding j sub by simp
  have o: "writes_to ?S (w_job (snd (3::int, Worker_init 3 9 demo_settings))) = 1 \<and>
           w_job (snd (3::int, Worker_init 3 9 demo_settings)) \<notin> set (job_queue ?S)"
    using T m c by blast
  have e: "\<exists>p \<in> set (workers ?S). w_job (snd p) = 9 \<and> writes_to ?S (w_job (snd p)) = 1 \<and>
             w_job (snd p) \<notin> set (job_queue ?S)"
    using m j o by blast
  have l: "int (length (thread_writes ?S)) = next_wid ?S - next_wid demo_orch"
    using T by blast
  have ns: "Stop_all \<notin> set ?cs" by simp
  have "writes_to ?S 7 + count_list (job_queue ?S) 7 = count_list (submitted ?cs) 7"
    using T ns by blast
  then have a: "writes_to ?S 7 + count_list (job_queue ?S) 7 = 1"
    unfolding sub by simp
  show ?thesis
    using h1 h2 h3 h4 sub demo_completion s7 s9 tw ns a e l by (intro conjI)
qed

text \<open>
  Claim C9 as stated fails for an object that is submitted twice: it is assigned once for
  each of its admissions, and with a single slot the object still pending has the new
  \<open>threads\<close> already, before its own admission.
\<close>

theorem job_submitted_twice_counterexample:
  "submitted [Enqueue [7, 7]] = [7, 7] \<and>
   thread_writes (handle_all [Enqueue [7, 7]] demo_orch) = [(7, 4), (7, 4)] \<and>
   writes_to (handle_all [Enqueue [7, 7]] demo_orch) 7 = 2 \<and>
   job_queue (handle_all [Enqueue [7, 7]] single_slot_orch) = [7] \<and>
   threads (job_store single_slot_orch 7) = 1 \<and>
   threads (job_store (handle_all [Enqueue [7, 7]] single_slot_orch) 7) = 4"
  by (simp add: demo_twice single_slot_twice writes_to_def single_slot_fields demo_threads)







text \<open>
  Claim C7. Under the skip policy, when the worker is neither held by a pause nor stopped
  as its run begins, the source exists and the computed destination exists, \<^verbatim>\<open>Worker.run\<close> emits one event and
  nothing else: the completion with success, the message \<^verbatim>\<open>Skipped (file exists)\<close> and the
  destination. No encoder process is started.
\<close>

theorem skip_policy:
  assumes "\<not> blocked_at_start wd" and "\<not> stopped_at_start wd"
    and "path_exists (fs0 wd) (src j)"
    and "out_path env (fs0 wd) (dst_dir j) (src j) (format j) = Inr (dst, fs1)"
    and "path_exists fs1 dst" and "on_exists st = Some ''skip''"
  shows "Worker_run env wd wid j st = [Sig_done wid True ''Skipped (file exists)'' dst] \<and>
         invocations (Worker_run env wd wid j st) = []"
  using assms by (simp add: Worker_run_def run_body_def resolve_dst_def)

theorem skip_policy_witness:
  "\<not> blocked_at_start skip_world \<and> \<not> stopped_at_start skip_world \<and>
   path_exists (fs0 skip_world) (src demo_job) \<and>
   out_path demo_env (fs0 skip_world) (dst_dir demo_job) (src demo_job) (format demo_job) =
     Inr (''out/a.mp3'', fs0 skip_world) \<and>
   path_exists (fs0 skip_world) ''out/a.mp3'' \<and> on_exists skip_settings = Some ''skip'' \<and>
   Worker_run demo_env skip_world 3 demo_job skip_settings =
     [Sig_done 3 True ''Skipped (file exists)'' ''out/a.mp3''] \<and>
   invocations (Worker_run demo_env skip_world 3 demo_job skip_settings) = []"
proof -
  have h0: "\<not> blocked_at_start skip_world" by code_simp
  have h1: "\<not> stopped_at_start skip_world" by code_simp
  have h2: "path_exists (fs0 skip_world) (src demo_job)" by code_simp
  have h3: "out_path demo_env (fs0 skip_world) (dst_dir demo_job) (src demo_job) (format demo_job) =
     Inr (''out/a.mp3'', fs0 skip_world)" by code_simp
  have h4: "path_exists (fs0 skip_world) ''out/a.mp3''" by code_simp
  have h5: "on_exists skip_settings = Some ''skip''" by code_simp
  show ?thesis using h0 h1 h2 h3 h4 h5 skip_policy[OF h0 h1 h2 h3 h4 h5, of 3] by blast
qed






text \<open>
  Claim C2 does not hold of the code. On Windows, where the reader thread runs, the
  encoder reports a duration of ten seconds and a position of five seconds, and the reader
  emits 50 percent; the polling loop then reaches its five-second mark and emits 0.1
  percent (lines 318 to 325), which it does whether or not progress was reported, although
  the comment of line 314 says it is for the case that none was. The percentages of the
  pass are 50 and then 0.1.
\<close>

theorem heartbeat_lowers_progress:
  "percentages (Worker_run windows_env failing_world 1 demo_job demo_settings) = [50, 1 / 10]"
  by code_simp

text \<open>
  Claim C4 does not hold of the code. The encoder prints
  \<^verbatim>\<open>Error while decoding stream #0:0: Invalid data found\<close> and exits with code 1. By line
  495 the pipe has been read to its end, by the reader thread and by line 452, so the
  \<^verbatim>\<open>read\<close> of line 495 returns nothing and the message stays
  \<^verbatim>\<open>Conversion failed with exit code 1\<close>, on POSIX and on Windows. Lines 496 to 502, given
  the diagnostic line, would have produced it as the message.
\<close>

theorem decoding_error_line_not_reported:
  "completions (Worker_run demo_env failing_world 1 demo_job demo_settings) =
     [(False, ''Conversion failed with exit code 1'', [])] \<and>
   completions (Worker_run windows_env failing_world 1 demo_job demo_settings) =
     [(False, ''Conversion failed with exit code 1'', [])] \<and>
   failure_message 1 [''Error while decoding stream #0:0: Invalid data found''] =
     ''Error while decoding stream #0:0: Invalid data found''"
  by code_simp

text \<open>
  Claim C5 does not hold of the code. The encoder exits with code 0 and leaves an output
  of 512 bytes. Line 466 reads \<^verbatim>\<open>speed_str\<close>, which has no value in \<^verbatim>\<open>run\<close>, and the
  \<^verbatim>\<open>NameError\<close> is caught at line 507: the completion is a failure whose message is
  \<^verbatim>\<open>Error: name 'speed_str' is not defined\<close>. The size check of lines 475 to 478, had it
  been reached, would have reported the output as too small.
\<close>

theorem small_output_reported_as_name_error:
  "getsize small_output_fs ''out/a.mp3'' = Some 512 \<and>
   completions (Worker_run demo_env small_output_world 1 demo_job demo_settings) =
     [(False, ''Error: name '' @ [CHR 0x27] @ ''speed_str'' @ [CHR 0x27] @ '' is not defined'', [])] \<and>
   verify_output small_output_world small_output_fs 1 demo_job ''out/a.mp3'' =
     [Sig_done 1 False ''Output file is too small (512 bytes) - conversion may have failed''
        ''out/a.mp3'']"
  by code_simp


end
